theory Spec2Isabelle
  imports Main "HOL-Library.Sublist" "HOL-Library.AList"
begin

section \<open>The command-line front end (src/robopages/cli.py)\<close>

subsection \<open>Exceptions\<close>

text \<open>
  The commands of \<^verbatim>\<open>cli.py\<close> guard their bodies with \<^verbatim>\<open>except Exception as e\<close>.
  That clause catches every instance of \<^verbatim>\<open>Exception\<close> (and of its subclasses) and lets
  every other \<^verbatim>\<open>BaseException\<close> pass; the interrupt key pressed at a prompt raises
  \<^verbatim>\<open>KeyboardInterrupt\<close>, which is of the second kind. \<open>Exception msg\<close> stands for any
  instance \<open>e\<close> of \<^verbatim>\<open>Exception\<close> with \<^verbatim>\<open>str(e) == msg\<close>.
\<close>

datatype exn = Exception string | KeyboardInterrupt

subsection \<open>The values exchanged with \<^verbatim>\<open>robopages.models\<close>\<close>

text \<open>
  Modelled from the spec: the classes \<^verbatim>\<open>Parameter\<close>, \<^verbatim>\<open>Function\<close>, \<^verbatim>\<open>FunctionCall\<close> and
  \<^verbatim>\<open>Robocall\<close> of \<^verbatim>\<open>robopages/models.py\<close> are not among the sources; their fields are
  the ones of section 3 of the specification. A mapping whose iteration order matters
  (a Python \<^verbatim>\<open>dict\<close>) is an association list with distinct keys, updated with
  \<^const>\<open>AList.update\<close>, which overwrites in place and appends a new key at the end.
\<close>

record parameter =
  ptype :: string
  pdescription :: string
  required :: bool
  default :: "string option"

record robofunction =
  description :: string
  parameters :: "(string \<times> parameter) list"
  template :: string

record function_call =
  fc_name :: string
  fc_arguments :: "(string \<times> string) list"

record robocall =
  rc_id :: "string option"
  rc_function :: function_call

subsection \<open>Collaborators and the observable world\<close>

text \<open>
  \<^verbatim>\<open>Robook.from_path\<close>, \<^verbatim>\<open>Robook.find_function\<close>, \<^verbatim>\<open>Robook.process\<close>, \<^verbatim>\<open>Robook.to_openai\<close>
  and \<^verbatim>\<open>json.dumps(_, indent=2)\<close> are called by \<^verbatim>\<open>cli.py\<close> and defined elsewhere, so the
  commands take them as parameters. Each of the \<^verbatim>\<open>Robook\<close> operations either returns a
  value or raises. So do three calls into libraries, whose failures are parameters too:
  \<^item> \<open>print_error s\<close> is the exception that \<^verbatim>\<open>rich.print\<close> (imported as \<^verbatim>\<open>print\<close>) raises for
    the text \<open>s\<close>, in which it parses console markup (a \<^verbatim>\<open>MarkupError\<close> for a closing tag
    that closes nothing), or \<open>None\<close> when it prints;
  \<^item> \<open>write_error p\<close> is the \<^verbatim>\<open>OSError\<close> that \<^verbatim>\<open>Path.write_text\<close> raises for the path \<open>p\<close>
    (a missing directory, a refused permission), or \<open>None\<close> when it writes;
  \<^item> \<open>uvicorn_error host port\<close> is what \<^verbatim>\<open>uvicorn.run\<close> raises, or \<open>None\<close> when the server
    runs and stops.
\<close>

record ('book, 'res, 'schema) collaborators =
  from_path :: "string \<Rightarrow> string option \<Rightarrow> exn + 'book"
  find_function :: "'book \<Rightarrow> string \<Rightarrow> exn + robofunction option"
  process :: "'book \<Rightarrow> robocall list \<Rightarrow> bool \<Rightarrow> exn + 'res"
  to_openai :: "'book \<Rightarrow> exn + 'schema"
  json_dumps :: "'schema \<Rightarrow> string"
  print_error :: "string \<Rightarrow> exn option"
  write_error :: "string \<Rightarrow> exn option"
  uvicorn_error :: "string \<Rightarrow> int \<Rightarrow> exn option"

text \<open>
  What \<^verbatim>\<open>rich.print\<close> was given: a text, or the value returned by \<^verbatim>\<open>process\<close>. This is
  the argument of the call, not what the terminal shows of it: \<^verbatim>\<open>rich\<close> removes the
  markup of a text, replaces emoji codes and wraps lines.
\<close>

datatype 'res printed = Text string | Value 'res

text \<open>
  The module \<^verbatim>\<open>robopages.api\<close> as \<^verbatim>\<open>cli.py\<close> uses it: its module-level attributes
  \<^verbatim>\<open>book\<close> (assigned by \<^verbatim>\<open>serve\<close>) and \<^verbatim>\<open>app\<close> (passed to \<^verbatim>\<open>uvicorn.run\<close>).
\<close>

record ('book, 'app) api_module =
  book :: "'book option"
  app :: 'app

text \<open>
  The effects of a command, in the order they happen: the arguments of each
  \<^verbatim>\<open>Robook.from_path\<close>, the argument of each call of \<^verbatim>\<open>print\<close> (whether or not the call
  then raised), the prompt of each \<^verbatim>\<open>Prompt.ask\<close>, the arguments of each call of
  \<^verbatim>\<open>process\<close>, the files written by \<^verbatim>\<open>write_text\<close>, the globals of the module
  \<^verbatim>\<open>robopages.api\<close>, and for each \<^verbatim>\<open>uvicorn.run\<close> its arguments together with the globals
  of \<^verbatim>\<open>robopages.api\<close> at that moment, which are what the application it starts finds.
\<close>

record ('book, 'res, 'app) world =
  loaded :: "(string \<times> string option) list"
  console :: "'res printed list"
  prompted :: "string list"
  processed :: "('book \<times> robocall list \<times> bool) list"
  files :: "string \<rightharpoonup> string"
  api :: "('book, 'app) api_module"
  served :: "('app \<times> string \<times> int \<times> ('book, 'app) api_module) list"

definition Robook_from_path ::
  "('book, 'res, 'schema) collaborators \<Rightarrow> string \<Rightarrow> string option \<Rightarrow>
     ('book, 'res, 'app) world \<Rightarrow> (exn + 'book) \<times> ('book, 'res, 'app) world" where
  "Robook_from_path env path flt w =
     (from_path env path flt, w\<lparr>loaded := loaded w @ [(path, flt)]\<rparr>)"

definition console_log ::
  "'res printed \<Rightarrow> ('book, 'res, 'app) world \<Rightarrow> ('book, 'res, 'app) world" where
  "console_log x w = w\<lparr>console := console w @ [x]\<rparr>"

text \<open>
  \<^verbatim>\<open>print(s)\<close> for a text \<open>s\<close>: the call is recorded, and it raises what \<^verbatim>\<open>rich\<close> raises
  for \<open>s\<close>. \<^verbatim>\<open>print()\<close> writes an empty line and \<^verbatim>\<open>print(x)\<close> for the list that
  \<^verbatim>\<open>process\<close> returns pretty-prints it; \<^verbatim>\<open>rich\<close> parses no markup in either, and they are
  taken to return.
\<close>

definition print_text ::
  "('book, 'res, 'schema) collaborators \<Rightarrow> string \<Rightarrow> ('book, 'res, 'app) world \<Rightarrow>
     (exn + unit) \<times> ('book, 'res, 'app) world" where
  "print_text env s w =
     (case print_error env s of
        Some e \<Rightarrow> (Inl e, console_log (Text s) w)
      | None \<Rightarrow> (Inr (), console_log (Text s) w))"

definition print_blank :: "('book, 'res, 'app) world \<Rightarrow> ('book, 'res, 'app) world" where
  "print_blank w = console_log (Text []) w"

definition print_value :: "'res \<Rightarrow> ('book, 'res, 'app) world \<Rightarrow> ('book, 'res, 'app) world" where
  "print_value r w = console_log (Value r) w"


text \<open>
  The operator at the terminal: the outcome of the \<open>i\<close>-th call of \<^verbatim>\<open>Prompt.ask\<close>
  (counted from 0) is the text it returns or the exception it raises. An input that
  ends is an operator who raises \<^verbatim>\<open>EOFError\<close> from then on.
\<close>

type_synonym operator = "nat \<Rightarrow> exn + string"

definition Prompt_ask ::
  "operator \<Rightarrow> string \<Rightarrow> ('book, 'res, 'app) world \<Rightarrow> (exn + string) \<times> ('book, 'res, 'app) world" where
  "Prompt_ask operator prompt w =
     (operator (length (prompted w)), w\<lparr>prompted := prompted w @ [prompt]\<rparr>)"

text \<open>How a command ends: it returns, or an exception leaves it.\<close>

datatype 'w outcome = Returned 'w | Propagated exn 'w

fun world_of :: "'w outcome \<Rightarrow> 'w" where
  "world_of (Returned w) = w"
| "world_of (Propagated e w) = w"

subsection \<open>\<^verbatim>\<open>to_json\<close>\<close>


subsection \<open>\<^verbatim>\<open>serve\<close>\<close>

text \<open>
  \<^verbatim>\<open>api.book = Robook.from_path(path, filter)\<close> assigns the module-level attribute, a
  warning is printed for an address other than the two local ones, and
  \<^verbatim>\<open>uvicorn.run(api.app, host=address, port=port)\<close> is given the module's \<^verbatim>\<open>app\<close>, the
  address and the port. The command has no handler.
\<close>

definition external_address_warning :: string where
  "external_address_warning =
     ''[bold red]:warning: external address specified, this is an unsafe configuration as no authentication is provided.[/]''"

definition uvicorn_run ::
  "('book, 'res, 'schema) collaborators \<Rightarrow> 'app \<Rightarrow> string \<Rightarrow> int \<Rightarrow>
     ('book, 'res, 'app) world \<Rightarrow> ('book, 'res, 'app) world outcome" where
  "uvicorn_run env a host port w =
     (let w' = w\<lparr>served := served w @ [(a, host, port, api w)]\<rparr> in
      case uvicorn_error env host port of
        Some e \<Rightarrow> Propagated e w'
      | None \<Rightarrow> Returned w')"

definition serve ::
  "('book, 'res, 'schema) collaborators \<Rightarrow> string \<Rightarrow> string option \<Rightarrow> string \<Rightarrow> int \<Rightarrow>
     ('book, 'res, 'app) world \<Rightarrow> ('book, 'res, 'app) world outcome" where
  "serve env path filter_str address port w0 =
     (case Robook_from_path env path filter_str w0 of
        (Inl e, w) \<Rightarrow> Propagated e w
      | (Inr b, w) \<Rightarrow>
          (let w1 = w\<lparr>api := (api w)\<lparr>book := Some b\<rparr>\<rparr> in
           case (if address \<notin> set [''127.0.0.1'', ''localhost'']
                 then print_text env external_address_warning w1 else (Inr (), w1)) of
             (Inl e, w2) \<Rightarrow> Propagated e w2
           | (Inr u, w2) \<Rightarrow> uvicorn_run env (app (api w2)) address port w2))"

subsection \<open>\<^verbatim>\<open>run\<close>\<close>

text \<open>
  The inner \<^verbatim>\<open>while True\<close> loop for one parameter. It ends when the operator enters a
  non-empty value (stored under the parameter's name), when the operator enters an empty
  value for a parameter that is not required, or when \<^verbatim>\<open>Prompt.ask\<close> raises; it never
  ends when a required parameter is answered with empty values for ever, and then the
  result is \<open>None\<close>.
\<close>

definition parameter_prompt :: "string \<Rightarrow> string" where
  "parameter_prompt param_name = ''Enter value for [yellow]${'' @ param_name @ ''}[/]''"

partial_function (option) ask_parameter ::
  "operator \<Rightarrow> string \<Rightarrow> parameter \<Rightarrow> (string \<times> string) list \<Rightarrow> ('book, 'res, 'app) world \<Rightarrow>
     ((exn + (string \<times> string) list) \<times> ('book, 'res, 'app) world) option" where
  "ask_parameter operator param_name parameter arguments w =
     (case Prompt_ask operator (parameter_prompt param_name) w of
        (Inl e, w') \<Rightarrow> Some (Inl e, w')
      | (Inr value, w') \<Rightarrow>
          if value \<noteq> [] then Some (Inr (AList.update param_name value arguments), w')
          else if \<not> required parameter then Some (Inr arguments, w')
          else ask_parameter operator param_name parameter arguments w')"

declare ask_parameter.simps [code]

text \<open>The \<^verbatim>\<open>for\<close> loop over \<^verbatim>\<open>function.parameters.items()\<close>.\<close>

fun collect_arguments ::
  "operator \<Rightarrow> (string \<times> parameter) list \<Rightarrow> (string \<times> string) list \<Rightarrow> ('book, 'res, 'app) world \<Rightarrow>
     ((exn + (string \<times> string) list) \<times> ('book, 'res, 'app) world) option" where
  "collect_arguments operator [] arguments w = Some (Inr arguments, w)"
| "collect_arguments operator ((param_name, parameter) # rest) arguments w =
     (case ask_parameter operator param_name parameter arguments w of
        None \<Rightarrow> None
      | Some (Inl e, w') \<Rightarrow> Some (Inl e, w')
      | Some (Inr arguments', w') \<Rightarrow> collect_arguments operator rest arguments' w')"

text \<open>The body of the \<^verbatim>\<open>try\<close> block: \<open>Inl e\<close> when \<open>e\<close> is raised inside it.\<close>

definition run_body ::
  "('book, 'res, 'schema) collaborators \<Rightarrow> operator \<Rightarrow> string \<Rightarrow> bool \<Rightarrow> string \<Rightarrow>
     ('book, 'res, 'app) world \<Rightarrow> ((exn + unit) \<times> ('book, 'res, 'app) world) option" where
  "run_body env operator path auto function_name w0 =
     (case Robook_from_path env path None w0 of
        (Inl e, w) \<Rightarrow> Some (Inl e, w)
      | (Inr b, w) \<Rightarrow>
          (case find_function env b function_name of
             Inl e \<Rightarrow> Some (Inl e, w)
           | Inr None \<Rightarrow> Some (Inl (Exception (''function '' @ function_name @ '' not found'')), w)
           | Inr (Some func) \<Rightarrow>
               (let w1 = (if parameters func \<noteq> [] then print_blank w else w) in
                case collect_arguments operator (parameters func) [] w1 of
                  None \<Rightarrow> None
                | Some (Inl e, w2) \<Rightarrow> Some (Inl e, w2)
                | Some (Inr arguments, w2) \<Rightarrow>
                    (let call = \<lparr>rc_id = None,
                                 rc_function = \<lparr>fc_name = function_name, fc_arguments = arguments\<rparr>\<rparr>;
                         w3 = w2\<lparr>processed := processed w2 @ [(b, [call], \<not> auto)]\<rparr>
                     in case process env b [call] (\<not> auto) of
                          Inl e \<Rightarrow> Some (Inl e, w3)
                        | Inr res \<Rightarrow> Some (Inr (), print_value res w3)))))"

text \<open>
  The whole command: \<^verbatim>\<open>except Exception as e: print(f":cross_mark: {e}")\<close> around the
  body. What the handler's own \<^verbatim>\<open>print\<close> raises leaves the command. \<open>None\<close> is a command
  that never returns.
\<close>

definition run ::
  "('book, 'res, 'schema) collaborators \<Rightarrow> operator \<Rightarrow> string \<Rightarrow> bool \<Rightarrow> string \<Rightarrow>
     ('book, 'res, 'app) world \<Rightarrow> ('book, 'res, 'app) world outcome option" where
  "run env operator path auto function_name w =
     (case run_body env operator path auto function_name w of
        None \<Rightarrow> None
      | Some (Inr u, w') \<Rightarrow> Some (Returned w')
      | Some (Inl (Exception msg), w') \<Rightarrow>
          (case print_text env ('':cross_mark: '' @ msg) w' of
             (Inl e, w'') \<Rightarrow> Some (Propagated e w'')
           | (Inr u', w'') \<Rightarrow> Some (Returned w''))
      | Some (Inl KeyboardInterrupt, w') \<Rightarrow> Some (Propagated KeyboardInterrupt w'))"

section \<open>The registry, the translator and the dispatcher\<close>

text \<open>
  \<^verbatim>\<open>robopages/models.py\<close>, which defines \<^verbatim>\<open>Robopage\<close>, \<^verbatim>\<open>Robook\<close> and their
  operations, is not among the sources. The definitions of this section follow
  sections 3 and 4 of the specification, sentence by sentence.
\<close>

subsection \<open>Pages and Books\<close>

text \<open>
  Modelled from the spec: the class \<^verbatim>\<open>Robopage\<close> (Page) is missing. A Page is "a named,
  described unit grouping related Functions; owns an ordered sequence of category labels
  and a mapping from function name to Function".
\<close>

record page =
  page_name :: string
  page_description :: string
  categories :: "string list"
  page_functions :: "(string \<times> robofunction) list"

text \<open>
  Modelled from the spec: the class \<^verbatim>\<open>Robook\<close> (Book) is missing. A Book is "a mapping
  from Page key (derived from source path) to Page", together with the name to Function
  index that \<open>load\<close> builds.
\<close>

record robook =
  pages :: "(string \<times> page) list"
  index :: "(string \<times> robofunction) list"

record load_error =
  le_path :: string
  le_message :: string

datatype duplicate_function_error = DuplicateFunctionError string

text \<open>
  Modelled from the spec: the Manifest Loader (4.1) is missing. Its input is the
  manifest files under the root, in traversal order, each with its path and what parsing
  it gives: a message for a malformed manifest, a Page otherwise. The Loader skips an
  offending file, accumulates its error and continues.
\<close>

fun loader :: "(string \<times> (string + page)) list \<Rightarrow> (string \<times> page) list \<times> load_error list" where
  "loader [] = ([], [])"
| "loader ((path, Inl msg) # rest) =
     (let (ps, errs) = loader rest in (ps, \<lparr>le_path = path, le_message = msg\<rparr> # errs))"
| "loader ((path, Inr p) # rest) =
     (let (ps, errs) = loader rest in ((path, p) # ps, errs))"

text \<open>
  Modelled from the spec: the filter of \<open>load\<close> is missing. It is a "case-insensitive
  substring match against Page name or any category label". Case is folded on the
  letters A to Z.
\<close>

definition lower :: "char \<Rightarrow> char" where
  "lower c = (let n = (of_char c :: nat) in if 65 \<le> n \<and> n \<le> 90 then char_of (n + 32) else c)"

definition contains_ci :: "string \<Rightarrow> string \<Rightarrow> bool" where
  "contains_ci needle hay = sublist (map lower needle) (map lower hay)"

definition page_matches :: "string \<Rightarrow> page \<Rightarrow> bool" where
  "page_matches flt p =
     (contains_ci flt (page_name p) \<or> list_ex (contains_ci flt) (categories p))"

definition apply_filter :: "string option \<Rightarrow> (string \<times> page) list \<Rightarrow> (string \<times> page) list" where
  "apply_filter flt ps =
     (case flt of None \<Rightarrow> ps | Some f \<Rightarrow> filter (\<lambda>(key, p). page_matches f p) ps)"

text \<open>
  Modelled from the spec: \<^verbatim>\<open>load(root, filter) -> (Book, [LoadError])\<close> (4.2) is missing.
  It "runs the Loader, applies the filter before indexing, builds the name to Function
  index, and fails with a DuplicateFunctionError if the same function name appears twice
  post-filter".
\<close>

fun first_duplicate :: "string list \<Rightarrow> string option" where
  "first_duplicate [] = None"
| "first_duplicate (x # xs) = (if x \<in> set xs then Some x else first_duplicate xs)"

definition load ::
  "(string \<times> (string + page)) list \<Rightarrow> string option \<Rightarrow>
     duplicate_function_error + (robook \<times> load_error list)" where
  "load manifests flt =
     (let (ps, errs) = loader manifests;
          kept = apply_filter flt ps;
          idx = concat (map (\<lambda>(key, p). page_functions p) kept)
      in case first_duplicate (map fst idx) of
           Some n \<Rightarrow> Inl (DuplicateFunctionError n)
         | None \<Rightarrow> Inr (\<lparr>pages = kept, index = idx\<rparr>, errs))"

text \<open>Modelled from the spec: \<^verbatim>\<open>find(name)\<close> (4.2) is missing; "exact-match lookup".\<close>

definition find_fn :: "robook \<Rightarrow> string \<Rightarrow> robofunction option" where
  "find_fn b n = map_of (index b) n"

text \<open>
  Modelled from the spec: \<^verbatim>\<open>functions()\<close> (4.2) is missing; "ordered by Page insertion
  order then Function insertion order within the Page".
\<close>

definition functions_of :: "robook \<Rightarrow> (page \<times> string \<times> robofunction) list" where
  "functions_of b = concat (map (\<lambda>(key, p). map (\<lambda>(n, f). (p, n, f)) (page_functions p)) (pages b))"

subsection \<open>The Schema Translator\<close>

datatype json = JString string | JBool bool | JArray "json list" | JObject "(string \<times> json) list"

fun field :: "string \<Rightarrow> json \<Rightarrow> json option" where
  "field k (JObject kvs) = map_of kvs k"
| "field k _ = None"

fun at_path :: "string list \<Rightarrow> json \<Rightarrow> json option" where
  "at_path [] j = Some j"
| "at_path (k # ks) j = (case field k j of None \<Rightarrow> None | Some j' \<Rightarrow> at_path ks j')"

datatype dialect = Openai | Generic

text \<open>
  Modelled from the spec: the Schema Translator (4.3) is missing. "Each Parameter's
  declared type maps to the dialect's primitive type representation; an unrecognized
  declared type degrades permissively to the dialect's string type; the required list is
  exactly the set of Parameters with required = true; Parameter ordering in the emitted
  schema matches Function-definition order." The declared types the specification names
  are string, integer and boolean.
\<close>

definition primitive_type :: "string \<Rightarrow> string" where
  "primitive_type t = (if t \<in> set [''string'', ''integer'', ''boolean''] then t else ''string'')"

definition property :: "parameter \<Rightarrow> json" where
  "property p =
     JObject [(''type'', JString (primitive_type (ptype p))),
              (''description'', JString (pdescription p))]"

definition required_names :: "robofunction \<Rightarrow> string list" where
  "required_names f = map fst (filter (\<lambda>(n, p). required p) (parameters f))"

definition openai_tool :: "page \<times> string \<times> robofunction \<Rightarrow> json" where
  "openai_tool e =
     (case e of (pg, n, f) \<Rightarrow>
        JObject [(''type'', JString ''function''),
                 (''function'',
                  JObject [(''name'', JString n),
                           (''description'', JString (description f)),
                           (''parameters'',
                            JObject [(''type'', JString ''object''),
                                     (''properties'',
                                      JObject (map (\<lambda>(pn, p). (pn, property p)) (parameters f))),
                                     (''required'', JArray (map JString (required_names f)))])])])"

definition generic_function :: "string \<times> robofunction \<Rightarrow> json" where
  "generic_function e =
     (case e of (n, f) \<Rightarrow>
        JObject [(''name'', JString n),
                 (''description'', JString (description f)),
                 (''parameters'',
                  JArray (map (\<lambda>(pn, p).
                            JObject [(''name'', JString pn),
                                     (''type'', JString (primitive_type (ptype p))),
                                     (''description'', JString (pdescription p)),
                                     (''required'', JBool (required p))])
                          (parameters f)))])"

definition generic_tool :: "string \<times> page \<Rightarrow> json" where
  "generic_tool e =
     (case e of (key, pg) \<Rightarrow>
        JObject [(''name'', JString (page_name pg)),
                 (''description'', JString (page_description pg)),
                 (''categories'', JArray (map JString (categories pg))),
                 (''functions'', JArray (map generic_function (page_functions pg)))])"

definition toSchema :: "dialect \<Rightarrow> robook \<Rightarrow> json list" where
  "toSchema d b =
     (case d of
        Openai \<Rightarrow> map openai_tool (functions_of b)
      | Generic \<Rightarrow> map generic_tool (pages b))"

subsection \<open>The Call Dispatcher\<close>

datatype error_kind = NotFound | Validation | ExecutionError | Timeout

datatype status = Ok | Skipped | Error error_kind

text \<open>
  Modelled from the spec: the class of Results is missing. A Result "correlates to one
  input Robocall; carries a content string (captured output or error description) and a
  status (ok / skipped / error-kind)"; the exit code of the process "is recorded".
\<close>

record result =
  res_id :: "string option"
  content :: string
  status :: status
  exit_code :: "int option"

text \<open>
  The two capabilities the Dispatcher consults: the Interactive Gate (4.5),
  \<^verbatim>\<open>confirm(boundCommand, description) -> Confirmed | Declined\<close>, and the execution of an
  external process, which exits with a code and its captured output, fails to start, or
  runs into the timeout.
\<close>

datatype decision = Confirmed | Declined

datatype exec_outcome = Exited int string | FailedToStart string | TimedOut string

text \<open>
  Modelled from the spec: step 2 of \<open>process\<close> (4.4) is missing. "Any required Parameter
  missing from the call's arguments" is a validation error.
\<close>

definition missing_required :: "robofunction \<Rightarrow> (string \<times> string) list \<Rightarrow> string list" where
  "missing_required f args = filter (\<lambda>n. map_of args n = None) (required_names f)"

text \<open>
  Modelled from the spec: step 3 of \<open>process\<close> (4.4) is missing. Each named placeholder
  \<^verbatim>\<open>${name}\<close> of a declared Parameter is substituted with its value; a missing optional
  Parameter resolves "to its declared default or an empty value"; arguments the template
  does not mention have no effect.
\<close>

function replace_all :: "string \<Rightarrow> string \<Rightarrow> string \<Rightarrow> string" where
  "replace_all pat rep [] = []"
| "replace_all pat rep (c # cs) =
     (if pat \<noteq> [] \<and> prefix pat (c # cs)
      then rep @ replace_all pat rep (drop (length pat) (c # cs))
      else c # replace_all pat rep cs)"
  by pat_completeness auto
termination
  by (relation "measure (\<lambda>(pat, rep, s). length s)") auto

definition argument_value :: "(string \<times> string) list \<Rightarrow> string \<Rightarrow> parameter \<Rightarrow> string" where
  "argument_value args n p =
     (case map_of args n of
        Some v \<Rightarrow> v
      | None \<Rightarrow> (case default p of Some d \<Rightarrow> d | None \<Rightarrow> []))"

definition bind_template :: "robofunction \<Rightarrow> (string \<times> string) list \<Rightarrow> string" where
  "bind_template f args =
     fold (\<lambda>(n, p) t. replace_all (''${'' @ n @ ''}'') (argument_value args n p) t)
       (parameters f) (template f)"

text \<open>
  Modelled from the spec: \<open>process\<close> (4.4) is missing. One call goes through steps 1 to
  6: resolve, validate, bind, ask for confirmation when interactive, execute, and build the
  Result. The second component is the list of commands handed to process execution so
  far, what a test double for process execution observes.
\<close>

definition process_call ::
  "robook \<Rightarrow> (string \<Rightarrow> string \<Rightarrow> decision) \<Rightarrow> (string \<Rightarrow> exec_outcome) \<Rightarrow> bool \<Rightarrow>
     robocall \<Rightarrow> string list \<Rightarrow> result \<times> string list" where
  "process_call b confirm exec interactive call spawned =
     (let fc = rc_function call;
          res = (\<lambda>c st code. \<lparr>res_id = rc_id call, content = c, status = st, exit_code = code\<rparr>)
      in case find_fn b (fc_name fc) of
           None \<Rightarrow> (res (''function '' @ fc_name fc @ '' not found'') (Error NotFound) None, spawned)
         | Some f \<Rightarrow>
             (case missing_required f (fc_arguments fc) of
                n # ns \<Rightarrow> (res (''missing required parameter '' @ n) (Error Validation) None, spawned)
              | [] \<Rightarrow>
                  (let cmd = bind_template f (fc_arguments fc) in
                   if interactive \<and> confirm cmd (description f) = Declined
                   then (res [] Skipped None, spawned)
                   else (case exec cmd of
                           Exited code out \<Rightarrow> (res out Ok (Some code), spawned @ [cmd])
                         | FailedToStart msg \<Rightarrow> (res msg (Error ExecutionError) None, spawned @ [cmd])
                         | TimedOut out \<Rightarrow> (res out (Error Timeout) None, spawned @ [cmd])))))"

fun process_calls ::
  "robook \<Rightarrow> (string \<Rightarrow> string \<Rightarrow> decision) \<Rightarrow> (string \<Rightarrow> exec_outcome) \<Rightarrow> bool \<Rightarrow>
     robocall list \<Rightarrow> string list \<Rightarrow> result list \<times> string list" where
  "process_calls b confirm exec interactive [] spawned = ([], spawned)"
| "process_calls b confirm exec interactive (call # rest) spawned =
     (let (r, spawned') = process_call b confirm exec interactive call spawned;
          (rs, spawned'') = process_calls b confirm exec interactive rest spawned'
      in (r # rs, spawned''))"

section \<open>Example data\<close>

text \<open>
  The Function of scenario A of the specification (a \<^verbatim>\<open>ping\<close> with a required target),
  with an optional count beside it, its Page, the Book holding it, and a batch with a
  valid call, a call of an unknown function and a call that lacks the target.
\<close>

definition ping :: robofunction where
  "ping = \<lparr>description = ''Ping a host'',
           parameters = [(''target'', \<lparr>ptype = ''string'', pdescription = ''Host to ping'',
                                      required = True, default = None\<rparr>),
                         (''count'', \<lparr>ptype = ''integer'', pdescription = ''Number of probes'',
                                      required = False, default = Some ''1''\<rparr>)],
           template = ''ping -c ${count} ${target}''\<rparr>"

definition network_page :: page where
  "network_page = \<lparr>page_name = ''Ping'', page_description = ''Network probes'',
                   categories = [''Network'', ''Discovery''],
                   page_functions = [(''ping'', ping)]\<rparr>"

definition example_manifests :: "(string \<times> (string + page)) list" where
  "example_manifests =
     [(''net/ping.yml'', Inr network_page), (''net/broken.yml'', Inl ''not a mapping'')]"

definition example_book :: robook where
  "example_book = \<lparr>pages = [(''net/ping.yml'', network_page)], index = [(''ping'', ping)]\<rparr>"

definition example_calls :: "robocall list" where
  "example_calls =
     [\<lparr>rc_id = Some ''a'',
       rc_function = \<lparr>fc_name = ''ping'', fc_arguments = [(''target'', ''127.0.0.1'')]\<rparr>\<rparr>,
      \<lparr>rc_id = Some ''b'',
       rc_function = \<lparr>fc_name = ''nonexistent'', fc_arguments = []\<rparr>\<rparr>,
      \<lparr>rc_id = Some ''c'',
       rc_function = \<lparr>fc_name = ''ping'', fc_arguments = [(''count'', ''3'')]\<rparr>\<rparr>]"

definition always_confirm :: "string \<Rightarrow> string \<Rightarrow> decision" where
  "always_confirm cmd d = Confirmed"

definition echo_exec :: "string \<Rightarrow> exec_outcome" where
  "echo_exec cmd = Exited 0 cmd"

text \<open>
  Stand-ins for the collaborators of \<^verbatim>\<open>cli.py\<close>: a \<^verbatim>\<open>from_path\<close> that knows two
  directories (and returns their Book for every filter), the registry and the dispatcher
  of the previous section, a serializer without indentation, a \<^verbatim>\<open>print\<close> that raises for
  a text with a closing markup tag where no tag is open, a \<^verbatim>\<open>write_text\<close> that raises
  under one missing directory, and a server that runs and stops.
\<close>

fun join :: "string \<Rightarrow> string list \<Rightarrow> string" where
  "join sep [] = []"
| "join sep [x] = x"
| "join sep (x # y # ys) = x @ sep @ join sep (y # ys)"

fun dumps :: "json \<Rightarrow> string" where
  "dumps (JString s) = CHR 0x22 # s @ [CHR 0x22]"
| "dumps (JBool b) = (if b then ''true'' else ''false'')"
| "dumps (JArray xs) = ''['' @ join '', '' (map dumps xs) @ '']''"
| "dumps (JObject kvs) =
     ''{'' @ join '', '' (map (\<lambda>(k, v). CHR 0x22 # k @ [CHR 0x22] @ '': '' @ dumps v) kvs) @ ''}''"

text \<open>A Book whose Function has a description with a closing tag that closes nothing.\<close>

definition noisy_book :: robook where
  "noisy_book =
     \<lparr>pages = [(''net/scan.yml'',
                \<lparr>page_name = ''Scan'', page_description = ''Port scans'',
                 categories = [''Network''],
                 page_functions =
                   [(''scan'', \<lparr>description = ''Scan a host [/24 for a range]'',
                                parameters = [], template = ''nmap -F''\<rparr>)]\<rparr>)],
      index = [(''scan'', \<lparr>description = ''Scan a host [/24 for a range]'',
                          parameters = [], template = ''nmap -F''\<rparr>)]\<rparr>"

fun unmatched_closing_tag :: "nat \<Rightarrow> string \<Rightarrow> bool" where
  "unmatched_closing_tag n [] = False"
| "unmatched_closing_tag n [c] = False"
| "unmatched_closing_tag n (c # d # cs) =
     (if c = CHR ''['' \<and> d = CHR ''/'' then n = 0 \<or> unmatched_closing_tag (n - 1) (d # cs)
      else if c = CHR ''['' \<and> d \<in> set ''abcdefghijklmnopqrstuvwxyz#@''
      then unmatched_closing_tag (Suc n) (d # cs)
      else unmatched_closing_tag n (d # cs))"

definition example_env :: "(robook, result list, json list) collaborators" where
  "example_env =
     \<lparr>from_path = (\<lambda>path flt. if path = ''pages'' then Inr example_book
                               else if path = ''noisy-pages'' then Inr noisy_book
                               else Inl (Exception (''no such file or directory: '' @ path))),
      find_function = (\<lambda>b n. Inr (find_fn b n)),
      process = (\<lambda>b calls interactive.
                   Inr (fst (process_calls b always_confirm echo_exec interactive calls []))),
      to_openai = (\<lambda>b. Inr (toSchema Openai b)),
      json_dumps = (\<lambda>schema. dumps (JArray schema)),
      print_error = (\<lambda>s. if unmatched_closing_tag 0 s
                          then Some (Exception ''closing tag does not match any open tag'')
                          else None),
      write_error = (\<lambda>p. if prefix ''/nonexistent-dir/'' p
                          then Some (Exception (''[Errno 2] No such file or directory: '' @ p))
                          else None),
      uvicorn_error = (\<lambda>host port. None)\<rparr>"

definition example_world :: "(robook, result list, string) world" where
  "example_world =
     \<lparr>loaded = [], console = [], prompted = [], processed = [], files = Map.empty,
      api = \<lparr>book = None, app = ''api.app''\<rparr>, served = []\<rparr>"

definition example_operator :: operator where
  "example_operator i =
     (if i = 0 then Inr []
      else if i = 1 then Inr ''10.0.0.1''
      else if i = 2 then Inr []
      else Inl (Exception ''EOF when reading a line''))"

text \<open>
  What the loop of \<open>ask_parameter\<close> has done when it returns \<open>y\<close>: it asked \<open>k + 1\<close>
  times, the first \<open>k\<close> answers were empty (and the parameter required, when there were
  any), and the last answer decides the result.
\<close>

definition ask_post ::
  "operator \<Rightarrow> string \<Rightarrow> parameter \<Rightarrow> (string \<times> string) list \<Rightarrow> ('book, 'res, 'app) world \<Rightarrow>
     ((exn + (string \<times> string) list) \<times> ('book, 'res, 'app) world) \<Rightarrow> bool" where
  "ask_post operator n p a w y \<longleftrightarrow>
     (\<exists>k. (\<forall>j<k. operator (length (prompted w) + j) = Inr []) \<and>
             (0 < k \<longrightarrow> required p) \<and>
             (operator (length (prompted w) + k) = Inr [] \<longrightarrow> \<not> required p) \<and>
             snd y = w\<lparr>prompted := prompted w @ replicate (Suc k) (parameter_prompt n)\<rparr> \<and>
             fst y = (case operator (length (prompted w) + k) of
                        Inl e \<Rightarrow> Inl e
                      | Inr v \<Rightarrow> if v \<noteq> [] then Inr (AList.update n v a) else Inr a))"

section \<open>Properties of the dispatcher\<close>

lemma process_call_spawned_indep:
  "fst (process_call b confirm exec i c s) = fst (process_call b confirm exec i c s')"
  by (simp add: process_call_def Let_def split: option.splits list.splits exec_outcome.splits)

lemma length_process_calls:
  "length (fst (process_calls b confirm exec i calls s)) = length calls"
  by (induction calls arbitrary: s) (simp_all add: split_def Let_def)

lemma nth_process_calls:
  "k < length calls \<Longrightarrow>
   fst (process_calls b confirm exec i calls s) ! k =
     fst (process_call b confirm exec i (calls ! k) [])"
proof (induction calls arbitrary: s k)
  case Nil
  then show ?case by simp
next
  case (Cons c cs)
  show ?case
  proof (cases k)
    case 0
    then show ?thesis
      using process_call_spawned_indep[of b confirm exec i c s "[]"]
      by (simp add: split_def Let_def)
  next
    case (Suc j)
    then show ?thesis
      using Cons by (simp add: split_def Let_def)
  qed
qed

lemma snd_process_calls_append:
  "snd (process_calls b confirm exec i (xs @ ys) s) =
   snd (process_calls b confirm exec i ys (snd (process_calls b confirm exec i xs s)))"
  by (induction xs arbitrary: s) (simp_all add: split_def Let_def)

lemma missing_required_nonempty:
  assumes "(n, p) \<in> set (parameters f)" "required p" "map_of args n = None"
  shows "missing_required f args \<noteq> []"
proof -
  have "n \<in> set (required_names f)"
    using assms(1,2) by (force simp: required_names_def)
  then have "n \<in> set (missing_required f args)"
    using assms(3) by (simp add: missing_required_def)
  then show ?thesis by auto
qed

lemma process_call_validation:
  assumes "find_fn b (fc_name (rc_function call)) = Some f"
    and "missing_required f (fc_arguments (rc_function call)) \<noteq> []"
  shows "status (fst (process_call b confirm exec i call s)) = Error Validation"
    and "snd (process_call b confirm exec i call s) = s"
  using assms by (simp_all add: process_call_def Let_def split: list.splits)

text \<open>
  Claim C1. For every batch of Robocalls, \<open>process\<close> returns as many Results as there are
  calls, the Result at index \<open>k\<close> is the one the dispatcher computes for the call at
  index \<open>k\<close> and carries that call's identifier. A failure of one call (not found,
  validation, execution, timeout, decline) is the status of its Result: the function is
  total and has no other way to end.
\<close>

theorem process_one_result_per_call:
  "length (fst (process_calls b confirm exec interactive calls s)) = length calls \<and>
   (\<forall>k<length calls.
      fst (process_calls b confirm exec interactive calls s) ! k =
        fst (process_call b confirm exec interactive (calls ! k) []) \<and>
      res_id (fst (process_calls b confirm exec interactive calls s) ! k) = rc_id (calls ! k))"
proof -
  have "res_id (fst (process_call b confirm exec interactive c [])) = rc_id c" for c
    by (simp add: process_call_def Let_def split: option.splits list.splits exec_outcome.splits)
  then show ?thesis
    by (simp add: length_process_calls nth_process_calls)
qed

theorem process_one_result_per_call_witness:
  "1 < length example_calls \<and>
   fst (process_calls example_book always_confirm echo_exec False example_calls []) ! 1 =
     \<lparr>res_id = Some ''b'', content = ''function nonexistent not found'',
      status = Error NotFound, exit_code = None\<rparr>"
proof -
  have k: "1 < length example_calls"
    by (simp add: example_calls_def)
  have "fst (process_call example_book always_confirm echo_exec False (example_calls ! 1) []) =
     \<lparr>res_id = Some ''b'', content = ''function nonexistent not found'',
      status = Error NotFound, exit_code = None\<rparr>"
    by (simp add: example_calls_def process_call_def example_book_def find_fn_def)
  with k process_one_result_per_call
    [of example_book always_confirm echo_exec False example_calls "[]"]
  show ?thesis by simp
qed

text \<open>
  Claim C2. When the call at index \<open>k\<close> resolves to a Function one of whose required
  Parameters is not a key of the call's arguments, its Result is a Validation error,
  processing it hands no command to process execution, and the commands executed for the
  batch are those executed for the batch without that call.
\<close>

theorem missing_required_never_spawns:
  assumes "k < length calls"
    and "find_fn b (fc_name (rc_function (calls ! k))) = Some f"
    and "(n, p) \<in> set (parameters f)"
    and "required p"
    and "n \<notin> fst ` set (fc_arguments (rc_function (calls ! k)))"
  shows "status (fst (process_calls b confirm exec interactive calls s) ! k) = Error Validation \<and>
         snd (process_call b confirm exec interactive (calls ! k) s') = s' \<and>
         snd (process_calls b confirm exec interactive calls s) =
           snd (process_calls b confirm exec interactive (take k calls @ drop (Suc k) calls) s)"
proof -
  let ?c = "calls ! k"
  have "map_of (fc_arguments (rc_function ?c)) n = None"
    using assms(5) by (simp add: map_of_eq_None_iff)
  then have miss: "missing_required f (fc_arguments (rc_function ?c)) \<noteq> []"
    using assms(3,4) by (rule missing_required_nonempty[rotated 2])
  have one: "status (fst (process_call b confirm exec interactive ?c t)) = Error Validation"
    and same: "snd (process_call b confirm exec interactive ?c t) = t" for t
    using process_call_validation[OF assms(2) miss] by simp_all
  have split: "calls = take k calls @ ?c # drop (Suc k) calls"
    using assms(1) by (rule id_take_nth_drop)
  have "snd (process_calls b confirm exec interactive (take k calls @ ?c # drop (Suc k) calls) s) =
        snd (process_calls b confirm exec interactive (take k calls @ drop (Suc k) calls) s)"
    by (simp add: snd_process_calls_append split_def Let_def same)
  with split have log: "snd (process_calls b confirm exec interactive calls s) =
        snd (process_calls b confirm exec interactive (take k calls @ drop (Suc k) calls) s)"
    by simp
  show ?thesis
    using one same log by (simp add: nth_process_calls[OF assms(1)])
qed

theorem missing_required_never_spawns_witness:
  "status (fst (process_calls example_book always_confirm echo_exec False example_calls []) ! 2) =
     Error Validation \<and>
   snd (process_call example_book always_confirm echo_exec False (example_calls ! 2) []) = [] \<and>
   snd (process_calls example_book always_confirm echo_exec False example_calls []) =
     snd (process_calls example_book always_confirm echo_exec False
            (take 2 example_calls @ drop (Suc 2) example_calls) [])"
proof -
  have k: "2 < length example_calls"
    by (simp add: example_calls_def)
  have f: "find_fn example_book (fc_name (rc_function (example_calls ! 2))) = Some ping"
    by (simp add: example_calls_def example_book_def find_fn_def)
  have p: "(''target'', \<lparr>ptype = ''string'', pdescription = ''Host to ping'',
                        required = True, default = None\<rparr>) \<in> set (parameters ping)"
    by (simp add: ping_def)
  have r: "required \<lparr>ptype = ''string'', pdescription = ''Host to ping'',
                     required = True, default = None\<rparr>"
    by simp
  have a: "''target'' \<notin> fst ` set (fc_arguments (rc_function (example_calls ! 2)))"
    by (simp add: example_calls_def)
  show ?thesis
    by (rule missing_required_never_spawns[OF k f p r a])
qed

section \<open>Properties of the translator\<close>

lemma set_required_names:
  "set (required_names f) = {n. \<exists>p. (n, p) \<in> set (parameters f) \<and> required p}"
  by (force simp: required_names_def)

lemma openai_tool_shape:
  "field ''type'' (openai_tool (pg, n, f)) = Some (JString ''function'')"
  "at_path [''function'', ''parameters'', ''type''] (openai_tool (pg, n, f)) =
     Some (JString ''object'')"
  "at_path [''function'', ''parameters'', ''required''] (openai_tool (pg, n, f)) =
     Some (JArray (map JString (required_names f)))"
  by (simp_all add: openai_tool_def)

text \<open>
  Claim C3. The OpenAI translation of a Book has one entry per Function, in the order
  of \<open>functions\<close>; each entry has \<^verbatim>\<open>type == "function"\<close> and
  \<^verbatim>\<open>function.parameters.type == "object"\<close>, and its \<^verbatim>\<open>required\<close> list holds exactly the
  names of that Function's Parameters whose required flag is true.
\<close>

theorem openai_schema_shape:
  "length (toSchema Openai b) = length (functions_of b) \<and>
   (\<forall>k<length (functions_of b).
      \<exists>pg n f rs. functions_of b ! k = (pg, n, f) \<and>
        field ''type'' (toSchema Openai b ! k) = Some (JString ''function'') \<and>
        at_path [''function'', ''parameters'', ''type''] (toSchema Openai b ! k) =
          Some (JString ''object'') \<and>
        at_path [''function'', ''parameters'', ''required''] (toSchema Openai b ! k) =
          Some (JArray (map JString rs)) \<and>
        set rs = {pn. \<exists>p. (pn, p) \<in> set (parameters f) \<and> required p})"
proof -
  have "\<exists>pg n f rs. functions_of b ! k = (pg, n, f) \<and>
        field ''type'' (toSchema Openai b ! k) = Some (JString ''function'') \<and>
        at_path [''function'', ''parameters'', ''type''] (toSchema Openai b ! k) =
          Some (JString ''object'') \<and>
        at_path [''function'', ''parameters'', ''required''] (toSchema Openai b ! k) =
          Some (JArray (map JString rs)) \<and>
        set rs = {pn. \<exists>p. (pn, p) \<in> set (parameters f) \<and> required p}"
    if k: "k < length (functions_of b)" for k
  proof -
    obtain pg n f where e: "functions_of b ! k = (pg, n, f)"
      by (cases "functions_of b ! k") auto
    have t: "toSchema Openai b ! k = openai_tool (pg, n, f)"
      using k e by (simp add: toSchema_def)
    show ?thesis
      unfolding t e using openai_tool_shape[of pg n f] set_required_names[of f] by blast
  qed
  then show ?thesis by (simp add: toSchema_def)
qed

theorem openai_schema_shape_witness:
  "0 < length (functions_of example_book) \<and>
   field ''type'' (toSchema Openai example_book ! 0) = Some (JString ''function'') \<and>
   at_path [''function'', ''parameters'', ''type''] (toSchema Openai example_book ! 0) =
     Some (JString ''object'') \<and>
   at_path [''function'', ''parameters'', ''required''] (toSchema Openai example_book ! 0) =
     Some (JArray [JString ''target''])"
proof -
  have k: "0 < length (functions_of example_book)"
    by (simp add: functions_of_def example_book_def network_page_def)
  have r: "at_path [''function'', ''parameters'', ''required''] (toSchema Openai example_book ! 0) =
     Some (JArray [JString ''target''])"
    by (simp add: toSchema_def functions_of_def example_book_def network_page_def
        openai_tool_def required_names_def ping_def)
  from k openai_schema_shape[of example_book] r show ?thesis by auto
qed

section \<open>Properties of the registry\<close>

lemma apply_filter_none_matching:
  "\<forall>(key, p) \<in> set ps. \<not> page_matches flt p \<Longrightarrow> apply_filter (Some flt) ps = []"
  by (auto simp: apply_filter_def filter_empty_conv)

lemma loader_example:
  "loader example_manifests =
     ([(''net/ping.yml'', network_page)],
      [\<lparr>le_path = ''net/broken.yml'', le_message = ''not a mapping''\<rparr>])"
  by (simp add: example_manifests_def)

text \<open>
  Claim C7. A Page passes the filter exactly when the filter, with case folded, is a
  substring of the Page's name or of one of its category labels, with case folded; the
  Pages of a Book loaded with a filter are the loaded Pages that pass it; and when no
  Page passes, \<open>load\<close> returns the empty Book (with the Loader's accumulated errors), not
  a failure.
\<close>

theorem filter_is_case_insensitive_substring:
  "(page_matches flt p \<longleftrightarrow>
      (\<exists>label \<in> set (page_name p # categories p). sublist (map lower flt) (map lower label))) \<and>
   (load manifests (Some flt) = Inr (b, errs) \<longrightarrow>
      pages b = filter (\<lambda>(key, p). page_matches flt p) (fst (loader manifests))) \<and>
   ((\<forall>(key, p) \<in> set (fst (loader manifests)). \<not> page_matches flt p) \<longrightarrow>
      load manifests (Some flt) = Inr (\<lparr>pages = [], index = []\<rparr>, snd (loader manifests)))"
proof (intro conjI impI)
  show "page_matches flt p \<longleftrightarrow>
      (\<exists>label \<in> set (page_name p # categories p). sublist (map lower flt) (map lower label))"
    by (auto simp: page_matches_def contains_ci_def list_ex_iff)
next
  assume "load manifests (Some flt) = Inr (b, errs)"
  then show "pages b = filter (\<lambda>(key, p). page_matches flt p) (fst (loader manifests))"
    by (auto simp: load_def Let_def apply_filter_def split_def split: option.splits)
next
  assume "\<forall>(key, p) \<in> set (fst (loader manifests)). \<not> page_matches flt p"
  then have "apply_filter (Some flt) (fst (loader manifests)) = []"
    by (rule apply_filter_none_matching)
  then show "load manifests (Some flt) = Inr (\<lparr>pages = [], index = []\<rparr>, snd (loader manifests))"
    by (simp add: load_def Let_def split_def)
qed

theorem filter_is_case_insensitive_substring_witness:
  "page_matches ''DISCO'' network_page \<and>
   load example_manifests (Some ''DISCO'') = Inr (example_book, snd (loader example_manifests)) \<and>
   pages example_book =
     filter (\<lambda>(key, p). page_matches ''DISCO'' p) (fst (loader example_manifests)) \<and>
   \<not> page_matches ''nmap'' network_page \<and>
   load example_manifests (Some ''nmap'') =
     Inr (\<lparr>pages = [], index = []\<rparr>,
          [\<lparr>le_path = ''net/broken.yml'', le_message = ''not a mapping''\<rparr>])"
proof -
  have m: "page_matches ''DISCO'' network_page"
    by code_simp
  have n: "\<not> page_matches ''nmap'' network_page"
    by code_simp
  have l: "load example_manifests (Some ''DISCO'') =
             Inr (example_book, snd (loader example_manifests))"
    using m by (simp add: load_def loader_example apply_filter_def example_book_def Let_def
        network_page_def[THEN arg_cong, of page_functions])
  have none: "\<forall>(key, p) \<in> set (fst (loader example_manifests)). \<not> page_matches ''nmap'' p"
    using n by (simp add: loader_example)
  from filter_is_case_insensitive_substring
    [of "''DISCO''" network_page example_manifests example_book "snd (loader example_manifests)"]
    filter_is_case_insensitive_substring
    [of "''nmap''" network_page example_manifests example_book "snd (loader example_manifests)"]
    m n l none
  show ?thesis by (simp add: loader_example)
qed

section \<open>Properties of the command-line front end\<close>

subsection \<open>The prompt loop\<close>

lemma ask_parameter_raises:
  "operator (length (prompted w)) = Inl e \<Longrightarrow>
   ask_parameter operator n p a w = Some (Inl e, w\<lparr>prompted := prompted w @ [parameter_prompt n]\<rparr>)"
  by (subst ask_parameter.simps) (simp add: Prompt_ask_def)

lemma ask_parameter_value:
  "operator (length (prompted w)) = Inr v \<Longrightarrow> v \<noteq> [] \<Longrightarrow>
   ask_parameter operator n p a w =
     Some (Inr (AList.update n v a), w\<lparr>prompted := prompted w @ [parameter_prompt n]\<rparr>)"
  by (subst ask_parameter.simps) (simp add: Prompt_ask_def)

lemma ask_parameter_skip:
  "operator (length (prompted w)) = Inr [] \<Longrightarrow> \<not> required p \<Longrightarrow>
   ask_parameter operator n p a w =
     Some (Inr a, w\<lparr>prompted := prompted w @ [parameter_prompt n]\<rparr>)"
  by (subst ask_parameter.simps) (simp add: Prompt_ask_def)

lemma ask_parameter_again:
  "operator (length (prompted w)) = Inr [] \<Longrightarrow> required p \<Longrightarrow>
   ask_parameter operator n p a w =
     ask_parameter operator n p a (w\<lparr>prompted := prompted w @ [parameter_prompt n]\<rparr>)"
  by (subst ask_parameter.simps) (simp add: Prompt_ask_def)


lemma ask_parameter_Some:
  assumes "ask_parameter operator n p a w = Some y"
  shows "ask_post operator n p a w y"
proof (rule ask_parameter.raw_induct[where P = ask_post, OF _ assms])
  fix ask :: "operator \<Rightarrow> string \<Rightarrow> parameter \<Rightarrow> (string \<times> string) list \<Rightarrow> ('a, 'b, 'c) world \<Rightarrow>
     ((exn + (string \<times> string) list) \<times> ('a, 'b, 'c) world) option"
  fix operator n p a w y
  assume IH: "\<And>operator n p a w y. ask operator n p a w = Some y \<Longrightarrow> ask_post operator n p a w y"
  assume body: "(case Prompt_ask operator (parameter_prompt n) w of
        (Inl e, w') \<Rightarrow> Some (Inl e, w')
      | (Inr value, w') \<Rightarrow>
          if value \<noteq> [] then Some (Inr (AList.update n value a), w')
          else if \<not> required p then Some (Inr a, w')
          else ask operator n p a w') = Some y"
  let ?i = "length (prompted w)"
  let ?w1 = "w\<lparr>prompted := prompted w @ [parameter_prompt n]\<rparr>"
  show "ask_post operator n p a w y"
  proof (cases "operator ?i")
    case (Inl e)
    with body have "y = (Inl e, ?w1)"
      by (simp add: Prompt_ask_def)
    with Inl show ?thesis
      unfolding ask_post_def by (intro exI[of _ 0]) simp
  next
    case (Inr v)
    show ?thesis
    proof (cases "v = [] \<and> required p")
      case False
      with body Inr have "y = (if v \<noteq> [] then Inr (AList.update n v a) else Inr a, ?w1)"
        by (auto simp: Prompt_ask_def)
      with Inr False show ?thesis
        unfolding ask_post_def by (intro exI[of _ 0]) auto
    next
      case True
      with body Inr have "ask operator n p a ?w1 = Some y"
        by (simp add: Prompt_ask_def)
      then have "ask_post operator n p a ?w1 y"
        by (rule IH)
      then obtain k where k:
        "\<forall>j<k. operator (Suc ?i + j) = Inr []"
        "operator (Suc ?i + k) = Inr [] \<longrightarrow> \<not> required p"
        "snd y = ?w1\<lparr>prompted := prompted ?w1 @ replicate (Suc k) (parameter_prompt n)\<rparr>"
        "fst y = (case operator (Suc ?i + k) of
                        Inl e \<Rightarrow> Inl e
                      | Inr v \<Rightarrow> if v \<noteq> [] then Inr (AList.update n v a) else Inr a)"
        unfolding ask_post_def by auto
      have a1: "\<forall>j<Suc k. operator (?i + j) = Inr []"
      proof (intro allI impI)
        fix j assume "j < Suc k"
        then show "operator (?i + j) = Inr []"
          using True Inr k(1) by (cases j) auto
      qed
      show ?thesis
        unfolding ask_post_def
        using a1 True k(2,3,4) by (intro exI[of _ "Suc k"]) simp
    qed
  qed
qed

lemma ask_parameter_returns:
  assumes "\<forall>j<k. operator (length (prompted w) + j) = Inr []"
    and "0 < k \<longrightarrow> required p"
    and "operator (length (prompted w) + k) = Inr [] \<longrightarrow> \<not> required p"
  shows "ask_parameter operator n p a w =
           Some (case operator (length (prompted w) + k) of
                   Inl e \<Rightarrow> Inl e
                 | Inr v \<Rightarrow> if v \<noteq> [] then Inr (AList.update n v a) else Inr a,
                 w\<lparr>prompted := prompted w @ replicate (Suc k) (parameter_prompt n)\<rparr>)"
  using assms
proof (induction k arbitrary: w)
  case 0
  show ?case
  proof (cases "operator (length (prompted w))")
    case (Inl e)
    then show ?thesis by (simp add: ask_parameter_raises)
  next
    case (Inr v)
    then show ?thesis
      using 0 by (cases "v = []") (simp_all add: ask_parameter_skip ask_parameter_value)
  qed
next
  case (Suc k)
  let ?w1 = "w\<lparr>prompted := prompted w @ [parameter_prompt n]\<rparr>"
  have "operator (length (prompted w) + 0) = Inr []"
    using Suc.prems(1) by blast
  then have first: "operator (length (prompted w)) = Inr []"
    by simp
  have req: "required p"
    using Suc.prems(2) by simp
  have rest: "\<forall>j<k. operator (length (prompted ?w1) + j) = Inr []"
  proof (intro allI impI)
    fix j assume "j < k"
    then have "Suc j < Suc k"
      by simp
    with Suc.prems(1) have "operator (length (prompted w) + Suc j) = Inr []"
      by blast
    then show "operator (length (prompted ?w1) + j) = Inr []"
      by simp
  qed
  have last: "operator (length (prompted ?w1) + k) = Inr [] \<longrightarrow> \<not> required p"
    using Suc.prems(3) by simp
  have "ask_parameter operator n p a w = ask_parameter operator n p a ?w1"
    using first req by (rule ask_parameter_again)
  also have "\<dots> = Some (case operator (length (prompted ?w1) + k) of
                   Inl e \<Rightarrow> Inl e
                 | Inr v \<Rightarrow> if v \<noteq> [] then Inr (AList.update n v a) else Inr a,
                 ?w1\<lparr>prompted := prompted ?w1 @ replicate (Suc k) (parameter_prompt n)\<rparr>)"
    using rest _ last by (rule Suc.IH) (simp add: req)
  finally show ?case by simp
qed


lemma ask_parameter_world:
  assumes "ask_parameter operator n p a w = Some (r, w')"
  shows "\<exists>qs. w' = w\<lparr>prompted := prompted w @ qs\<rparr>"
  using ask_parameter_Some[OF assms] unfolding ask_post_def by auto

lemma ask_parameter_Inr:
  assumes "ask_parameter operator n p a w = Some (Inr a', w')"
  shows "(a' = a \<and> \<not> required p) \<or> (\<exists>v. v \<noteq> [] \<and> a' = AList.update n v a)"
proof -
  from ask_parameter_Some[OF assms] obtain k where
    k: "operator (length (prompted w) + k) = Inr [] \<longrightarrow> \<not> required p"
       "Inr a' = (case operator (length (prompted w) + k) of
                        Inl e \<Rightarrow> Inl e
                      | Inr v \<Rightarrow> if v \<noteq> [] then Inr (AList.update n v a) else Inr a)"
    unfolding ask_post_def by auto
  show ?thesis
  proof (cases "operator (length (prompted w) + k)")
    case (Inl e)
    with k(2) show ?thesis by simp
  next
    case (Inr v)
    with k show ?thesis by (cases "v = []") auto
  qed
qed

lemma ask_parameter_required_Inr:
  assumes "ask_parameter operator n p a w = Some (Inr a', w')" and "required p"
  shows "\<exists>k v. v \<noteq> [] \<and> (\<forall>j<k. operator (length (prompted w) + j) = Inr []) \<and>
           operator (length (prompted w) + k) = Inr v \<and> a' = AList.update n v a \<and>
           prompted w' = prompted w @ replicate (Suc k) (parameter_prompt n)"
proof -
  from ask_parameter_Some[OF assms(1)] obtain k where
    k: "\<forall>j<k. operator (length (prompted w) + j) = Inr []"
       "operator (length (prompted w) + k) = Inr [] \<longrightarrow> \<not> required p"
       "w' = w\<lparr>prompted := prompted w @ replicate (Suc k) (parameter_prompt n)\<rparr>"
       "Inr a' = (case operator (length (prompted w) + k) of
                        Inl e \<Rightarrow> Inl e
                      | Inr v \<Rightarrow> if v \<noteq> [] then Inr (AList.update n v a) else Inr a)"
    unfolding ask_post_def by auto
  show ?thesis
  proof (cases "operator (length (prompted w) + k)")
    case (Inl e)
    with k(4) show ?thesis by simp
  next
    case (Inr v)
    with k(2) assms(2) have "v \<noteq> []" by auto
    with Inr k(1,3,4) show ?thesis
      by (intro exI[of _ k] exI[of _ v]) simp
  qed
qed

lemma values_update:
  "snd ` set (AList.update k v al) \<subseteq> insert v (snd ` set al)"
  by (induction al) auto

lemma keys_update:
  "fst ` set (AList.update k v al) = insert k (fst ` set al)"
  by (simp add: AList.dom_update)

lemma collect_arguments_world:
  "collect_arguments operator ps a w = Some (r, w') \<Longrightarrow>
   \<exists>qs. w' = w\<lparr>prompted := prompted w @ qs\<rparr>"
proof (induction ps arbitrary: a w)
  case Nil
  then show ?case by (auto intro: exI[of _ "[]"])
next
  case (Cons np ps)
  obtain n p where np: "np = (n, p)" by (cases np)
  from Cons.prems np obtain r1 w1 where
    one: "ask_parameter operator n p a w = Some (r1, w1)"
    by (auto split: option.splits)
  from ask_parameter_world[OF one] obtain qs where qs: "w1 = w\<lparr>prompted := prompted w @ qs\<rparr>"
    by blast
  show ?case
  proof (cases r1)
    case (Inl e)
    with Cons.prems np one qs show ?thesis by auto
  next
    case (Inr a1)
    with Cons.prems np one have "collect_arguments operator ps a1 w1 = Some (r, w')"
      by simp
    from Cons.IH[OF this] obtain qs' where "w' = w1\<lparr>prompted := prompted w1 @ qs'\<rparr>"
      by blast
    with qs have "w' = w\<lparr>prompted := prompted w @ (qs @ qs')\<rparr>"
      by simp
    then show ?thesis by blast
  qed
qed

lemma subset_chain: "A \<subseteq> B \<union> C \<Longrightarrow> B \<subseteq> D \<union> C \<Longrightarrow> A \<subseteq> D \<union> C"
  by blast

lemma collect_arguments_Inr:
  "collect_arguments operator ps a w = Some (Inr a', w') \<Longrightarrow>
   (snd ` set a' \<subseteq> snd ` set a \<union> {v. v \<noteq> []}) \<and>
   fst ` set a \<subseteq> fst ` set a' \<and>
   fst ` set a' \<subseteq> fst ` set a \<union> fst ` set ps \<and>
   (\<forall>(n, p) \<in> set ps. required p \<longrightarrow> n \<in> fst ` set a')"
proof (induction ps arbitrary: a w)
  case Nil
  then show ?case by auto
next
  case (Cons np ps)
  obtain n p where np: "np = (n, p)" by (cases np)
  from Cons.prems np obtain a1 w1 where
    one: "ask_parameter operator n p a w = Some (Inr a1, w1)"
    and rest: "collect_arguments operator ps a1 w1 = Some (Inr a', w')"
    by (auto split: option.splits sum.splits)
  note IH = Cons.IH[OF rest]
  from ask_parameter_Inr[OF one]
  have a1: "(a1 = a \<and> \<not> required p) \<or> (\<exists>v. v \<noteq> [] \<and> a1 = AList.update n v a)" .
  have v1: "snd ` set a1 \<subseteq> snd ` set a \<union> {v. v \<noteq> []}"
    using a1 values_update[of n _ a] by auto
  have "fst ` set a1 = fst ` set a \<or> fst ` set a1 = insert n (fst ` set a)"
    using a1 keys_update[of n _ a] by blast
  then have k1: "fst ` set a \<subseteq> fst ` set a1" "fst ` set a1 \<subseteq> insert n (fst ` set a)"
    by blast+
  have r1: "required p \<longrightarrow> n \<in> fst ` set a1"
    using a1 by (auto simp: keys_update)
  note i1 = IH[THEN conjunct1]
  note i2 = IH[THEN conjunct2, THEN conjunct1]
  note i3 = IH[THEN conjunct2, THEN conjunct2, THEN conjunct1]
  note i4 = IH[THEN conjunct2, THEN conjunct2, THEN conjunct2]
  have c1: "snd ` set a' \<subseteq> snd ` set a \<union> {v. v \<noteq> []}"
    by (rule subset_chain[OF i1 v1])
  have c2: "fst ` set a \<subseteq> fst ` set a'"
    using k1(1) i2 by (rule order_trans)
  have "fst ` set a' \<subseteq> insert n (fst ` set a) \<union> fst ` set ps"
    using i3 k1(2) by (meson Un_mono order_refl order_trans)
  then have c3: "fst ` set a' \<subseteq> fst ` set a \<union> fst ` set ((n, p) # ps)"
    by simp
  have "n \<in> fst ` set a'" if "required p"
    using that r1 i2 by (meson subsetD)
  then have c4: "\<forall>(m, q) \<in> set ((n, p) # ps). required q \<longrightarrow> m \<in> fst ` set a'"
    using i4 by simp
  show ?case
    unfolding np by (intro conjI c1 c2 c3 c4)
qed

lemma collect_arguments_append:
  "collect_arguments operator (ps @ qs) a w =
     (case collect_arguments operator ps a w of
        None \<Rightarrow> None
      | Some (Inl e, w') \<Rightarrow> Some (Inl e, w')
      | Some (Inr a', w') \<Rightarrow> collect_arguments operator qs a' w')"
proof (induction ps arbitrary: a w)
  case Nil
  then show ?case by simp
next
  case (Cons np ps)
  obtain n p where np: "np = (n, p)" by (cases np)
  show ?case
    unfolding np by (simp add: Cons.IH split: option.splits sum.splits)
qed

lemma ask_parameter_terminates:
  assumes "\<exists>j. operator (length (prompted w) + j) \<noteq> Inr []"
  shows "\<exists>y. ask_parameter operator n p a w = Some y"
proof (cases "required p")
  case False
  then show ?thesis
    using ask_parameter_returns[of 0 operator w p n a] by simp
next
  case True
  define k where "k = (LEAST j. operator (length (prompted w) + j) \<noteq> Inr [])"
  have last: "operator (length (prompted w) + k) \<noteq> Inr []"
    unfolding k_def using assms by (rule LeastI_ex)
  have before: "\<forall>j<k. operator (length (prompted w) + j) = Inr []"
    unfolding k_def using not_less_Least by blast
  show ?thesis
    using ask_parameter_returns[of k operator w p n a] before last True by simp
qed

lemma collect_arguments_terminates:
  assumes "\<forall>i. \<exists>j. operator (i + j) \<noteq> Inr []"
  shows "\<exists>y. collect_arguments operator ps a w = Some y"
proof (induction ps arbitrary: a w)
  case Nil
  then show ?case by simp
next
  case (Cons np ps)
  obtain n p where np: "np = (n, p)" by (cases np)
  from assms have "\<exists>j. operator (length (prompted w) + j) \<noteq> Inr []"
    by blast
  then obtain r1 w1 where one: "ask_parameter operator n p a w = Some (r1, w1)"
    using ask_parameter_terminates[of operator w n p a] by auto
  show ?case
  proof (cases r1)
    case (Inl e)
    with one np show ?thesis by simp
  next
    case (Inr a1)
    with one np Cons.IH[of a1 w1] show ?thesis by simp
  qed
qed


lemma ask_parameter_Inl:
  assumes "ask_parameter operator n p a w = Some (Inl e, w')"
  shows "\<exists>i. operator i = Inl e"
proof -
  from ask_parameter_Some[OF assms] obtain k where
    k: "Inl e = (case operator (length (prompted w) + k) of
                        Inl e \<Rightarrow> Inl e
                      | Inr v \<Rightarrow> if v \<noteq> [] then Inr (AList.update n v a) else Inr a)"
    unfolding ask_post_def by auto
  then have "operator (length (prompted w) + k) = Inl e"
    by (cases "operator (length (prompted w) + k)") (auto split: if_splits)
  then show ?thesis by blast
qed

lemma collect_arguments_Inl:
  "collect_arguments operator ps a w = Some (Inl e, w') \<Longrightarrow> \<exists>i. operator i = Inl e"
proof (induction ps arbitrary: a w)
  case Nil
  then show ?case by simp
next
  case (Cons np ps)
  obtain n p where np: "np = (n, p)" by (cases np)
  from Cons.prems np obtain r1 w1 where
    one: "ask_parameter operator n p a w = Some (r1, w1)"
    by (auto split: option.splits)
  show ?case
  proof (cases r1)
    case (Inl e1)
    with Cons.prems np one have "e1 = e" by simp
    with Inl one ask_parameter_Inl show ?thesis by blast
  next
    case (Inr a1)
    with Cons.prems np one have "collect_arguments operator ps a1 w1 = Some (Inl e, w')"
      by simp
    then show ?thesis by (rule Cons.IH)
  qed
qed

lemma run_body_not_found:
  assumes "from_path env path None = Inr b"
    and "find_function env b function_name = Inr None"
  shows "run_body env operator path auto function_name w =
           Some (Inl (Exception (''function '' @ function_name @ '' not found'')),
                 w\<lparr>loaded := loaded w @ [(path, None)]\<rparr>)"
  using assms by (simp add: run_body_def Robook_from_path_def)

lemma run_body_dispatch:
  assumes "from_path env path None = Inr b"
    and "find_function env b function_name = Inr (Some func)"
    and "collect_arguments operator (parameters func) []
           (if parameters func \<noteq> [] then print_blank (w\<lparr>loaded := loaded w @ [(path, None)]\<rparr>)
            else w\<lparr>loaded := loaded w @ [(path, None)]\<rparr>) = Some (Inr arguments, w2)"
  shows "run_body env operator path auto function_name w =
           (let call = \<lparr>rc_id = None,
                        rc_function = \<lparr>fc_name = function_name, fc_arguments = arguments\<rparr>\<rparr>;
                w3 = w2\<lparr>processed := processed w2 @ [(b, [call], \<not> auto)]\<rparr>
            in case process env b [call] (\<not> auto) of
                 Inl e \<Rightarrow> Some (Inl e, w3)
               | Inr res \<Rightarrow> Some (Inr (), print_value res w3))"
  using assms by (simp add: run_body_def Robook_from_path_def Let_def)

lemma run_body_terminates:
  assumes "\<forall>i. \<exists>j. operator (i + j) \<noteq> Inr []"
  shows "\<exists>y. run_body env operator path auto function_name w = Some y"
proof (cases "from_path env path None")
  case (Inl e)
  then show ?thesis by (simp add: run_body_def Robook_from_path_def)
next
  case b: (Inr b)
  show ?thesis
  proof (cases "find_function env b function_name")
    case (Inl e)
    with b show ?thesis by (simp add: run_body_def Robook_from_path_def)
  next
    case (Inr fo)
    show ?thesis
    proof (cases fo)
      case None
      with b Inr show ?thesis by (simp add: run_body_def Robook_from_path_def)
    next
      case (Some func)
      let ?w1 = "if parameters func \<noteq> [] then print_blank (w\<lparr>loaded := loaded w @ [(path, None)]\<rparr>)
            else w\<lparr>loaded := loaded w @ [(path, None)]\<rparr>"
      from Inr Some have f: "find_function env b function_name = Inr (Some func)"
        by simp
      from collect_arguments_terminates[OF assms, of "parameters func" "[]" ?w1]
      obtain y where "collect_arguments operator (parameters func) [] ?w1 = Some y"
        by blast
      then obtain r w2 where col:
        "collect_arguments operator (parameters func) [] ?w1 = Some (r, w2)"
        by (cases y) simp
      show ?thesis
      proof (cases r)
        case (Inl e)
        with b f col show ?thesis
          by (simp add: run_body_def Robook_from_path_def Let_def)
      next
        case (Inr arguments)
        with col have col': "collect_arguments operator (parameters func) [] ?w1 =
            Some (Inr arguments, w2)"
          by simp
        show ?thesis
          unfolding run_body_dispatch[OF b f col', of auto]
          by (simp add: Let_def split: sum.splits)
      qed
    qed
  qed
qed

lemma run_body_raises:
  assumes "run_body env operator path auto function_name w = Some (Inl e, w')"
  shows "from_path env path None = Inl e \<or> (\<exists>b. find_function env b function_name = Inl e) \<or>
         e = Exception (''function '' @ function_name @ '' not found'') \<or>
         (\<exists>i. operator i = Inl e) \<or> (\<exists>b cs. process env b cs (\<not> auto) = Inl e)"
proof (cases "from_path env path None")
  case (Inl e1)
  with assms show ?thesis by (simp add: run_body_def Robook_from_path_def)
next
  case b: (Inr b)
  show ?thesis
  proof (cases "find_function env b function_name")
    case (Inl e1)
    with b assms have "e1 = e" by (simp add: run_body_def Robook_from_path_def)
    with Inl show ?thesis by blast
  next
    case (Inr fo)
    show ?thesis
    proof (cases fo)
      case None
      with b Inr assms show ?thesis by (simp add: run_body_def Robook_from_path_def)
    next
      case (Some func)
      let ?w1 = "if parameters func \<noteq> [] then print_blank (w\<lparr>loaded := loaded w @ [(path, None)]\<rparr>)
            else w\<lparr>loaded := loaded w @ [(path, None)]\<rparr>"
      from Inr Some have f: "find_function env b function_name = Inr (Some func)"
        by simp
      have "collect_arguments operator (parameters func) [] ?w1 \<noteq> None"
        using assms b f
        by (auto simp: run_body_def Robook_from_path_def simp del: Let_def split: option.splits)
      then obtain r w2 where col:
        "collect_arguments operator (parameters func) [] ?w1 = Some (r, w2)"
        by (cases "collect_arguments operator (parameters func) [] ?w1") auto
      show ?thesis
      proof (cases r)
        case (Inl e1)
        with b f col assms have "e1 = e"
          by (simp add: run_body_def Robook_from_path_def Let_def)
        with Inl col have "collect_arguments operator (parameters func) [] ?w1 = Some (Inl e, w2)"
          by simp
        then have "\<exists>i. operator i = Inl e"
          by (rule collect_arguments_Inl)
        then show ?thesis by blast
      next
        case (Inr arguments)
        with col have col': "collect_arguments operator (parameters func) [] ?w1 =
            Some (Inr arguments, w2)"
          by simp
        let ?call = "\<lparr>rc_id = None,
                        rc_function = \<lparr>fc_name = function_name, fc_arguments = arguments\<rparr>\<rparr>"
        from assms have "process env b [?call] (\<not> auto) = Inl e"
          unfolding run_body_dispatch[OF b f col', of auto]
          by (cases "process env b [?call] (\<not> auto)") (simp_all add: Let_def)
        then show ?thesis by blast
      qed
    qed
  qed
qed


subsection \<open>\<^verbatim>\<open>to_json\<close>\<close>




subsection \<open>\<^verbatim>\<open>run\<close>\<close>

text \<open>
  Claim C6. When the Book loads and \<^verbatim>\<open>find_function\<close> finds no Function of the requested
  name, the body of \<^verbatim>\<open>run\<close> raises \<^verbatim>\<open>function <name> not found\<close> right after the lookup.
  When the command ends, \<^verbatim>\<open>process\<close> has not been called, nothing has been asked of the
  operator, and the one text handed to \<^verbatim>\<open>print\<close> is the message of that error; the
  command returns when that call of \<^verbatim>\<open>print\<close> does not raise.
\<close>

theorem run_not_found_aborts_before_process:
  assumes "from_path env path None = Inr b"
    and "find_function env b function_name = Inr None"
  shows "run_body env operator path auto function_name w =
           Some (Inl (Exception (''function '' @ function_name @ '' not found'')),
                 w\<lparr>loaded := loaded w @ [(path, None)]\<rparr>) \<and>
         map_option (\<lambda>r. processed (world_of r)) (run env operator path auto function_name w) =
           Some (processed w) \<and>
         map_option (\<lambda>r. prompted (world_of r)) (run env operator path auto function_name w) =
           Some (prompted w) \<and>
         map_option (\<lambda>r. console (world_of r)) (run env operator path auto function_name w) =
           Some (console w @ [Text ('':cross_mark: function '' @ function_name @ '' not found'')]) \<and>
         (print_error env ('':cross_mark: function '' @ function_name @ '' not found'') = None \<longrightarrow>
            run env operator path auto function_name w =
              Some (Returned
                      (console_log (Text ('':cross_mark: function '' @ function_name @ '' not found''))
                         (w\<lparr>loaded := loaded w @ [(path, None)]\<rparr>))))"
  by (simp add: run_def run_body_not_found[OF assms] print_text_def console_log_def
      split: option.splits)

theorem run_not_found_aborts_before_process_witness:
  "run example_env example_operator ''pages'' False ''pong'' example_world =
     Some (Returned (console_log (Text '':cross_mark: function pong not found'')
                       (example_world\<lparr>loaded := [(''pages'', None)]\<rparr>))) \<and>
   map_option (\<lambda>r. processed (world_of r))
     (run example_env example_operator ''pages'' False ''pong'' example_world) = Some []"
proof -
  have l: "from_path example_env ''pages'' None = Inr example_book"
    by (simp add: example_env_def)
  have f: "find_function example_env example_book ''pong'' = Inr None"
    by (simp add: example_env_def find_fn_def example_book_def)
  have w: "loaded example_world = []" "processed example_world = []"
    by (simp_all add: example_world_def)
  have e: "print_error example_env ('':cross_mark: function '' @ ''pong'' @ '' not found'') = None"
    by (simp add: example_env_def)
  note t = run_not_found_aborts_before_process
    [OF l f, of example_operator False example_world, unfolded w append_Nil]
  have ended: "run example_env example_operator ''pages'' False ''pong'' example_world =
     Some (Returned (console_log (Text '':cross_mark: function pong not found'')
                       (example_world\<lparr>loaded := [(''pages'', None)]\<rparr>)))"
    using t[THEN conjunct2, THEN conjunct2, THEN conjunct2, THEN conjunct2] e by simp
  show ?thesis
    by (intro conjI ended t[THEN conjunct2, THEN conjunct1])
qed




lemma example_collect:
  "collect_arguments example_operator (parameters ping) []
     (print_blank (example_world\<lparr>loaded := [(''pages'', None)]\<rparr>)) =
   Some (Inr [(''target'', ''10.0.0.1'')],
         print_blank (example_world\<lparr>loaded := [(''pages'', None)]\<rparr>)
           \<lparr>prompted := [parameter_prompt ''target'', parameter_prompt ''target'',
                         parameter_prompt ''count'']\<rparr>)"
  by (simp add: ping_def ask_parameter.simps Prompt_ask_def example_operator_def
      print_blank_def console_log_def example_world_def)



lemma ask_parameter_map_of:
  assumes "ask_parameter operator n p a w = Some (Inr a', w')" and "m \<noteq> n"
  shows "map_of a' m = map_of a m"
  using ask_parameter_Inr[OF assms(1)] assms(2) by (auto simp: AList.update_conv)

lemma collect_arguments_map_of:
  "collect_arguments operator ps a w = Some (Inr a', w') \<Longrightarrow> m \<notin> fst ` set ps \<Longrightarrow>
   map_of a' m = map_of a m"
proof (induction ps arbitrary: a w)
  case Nil
  then show ?case by simp
next
  case (Cons np ps)
  obtain n p where np: "np = (n, p)" by (cases np)
  from Cons.prems(1) np obtain a1 w1 where
    one: "ask_parameter operator n p a w = Some (Inr a1, w1)"
    and rest: "collect_arguments operator ps a1 w1 = Some (Inr a', w')"
    by (auto split: option.splits sum.splits)
  from Cons.prems(2) np have "m \<noteq> n" "m \<notin> fst ` set ps"
    by auto
  then show ?case
    using Cons.IH[OF rest] ask_parameter_map_of[OF one] by simp
qed

text \<open>
  Claim C9. When the collection of arguments ends normally, no value of the built
  mapping is the empty string, its keys are names of parameters, and every required
  parameter has a value. Parameter by parameter (their names being distinct, as the keys
  of a \<^verbatim>\<open>dict\<close> are): the prompts of a parameter start where those of the parameters
  before it ended; it is asked \<open>k + 1\<close> times, with its own prompt; the first \<open>k\<close> answers
  are empty, which happens only for a required parameter; the last answer, if not empty,
  is the value stored under the parameter's name, and if empty, the parameter is optional
  and is not a key of the mapping.
\<close>

theorem collected_arguments_have_no_empty_value:
  fixes w w' :: "('book, 'res, 'app) world"
  assumes "collect_arguments operator params [] w = Some (Inr arguments, w')"
  shows "[] \<notin> snd ` set arguments \<and>
         fst ` set arguments \<subseteq> fst ` set params \<and>
         (\<forall>(n, p) \<in> set params. required p \<longrightarrow> n \<in> fst ` set arguments) \<and>
         (\<forall>before n p after.
            params = before @ (n, p) # after \<and> distinct (map fst params) \<longrightarrow>
            (\<exists>a1 (w1 :: ('book, 'res, 'app) world) k.
               collect_arguments operator before [] w = Some (Inr a1, w1) \<and>
               (\<forall>j<k. operator (length (prompted w1) + j) = Inr []) \<and>
               (0 < k \<longrightarrow> required p) \<and>
               take (Suc k) (drop (length (prompted w1)) (prompted w')) =
                 replicate (Suc k) (parameter_prompt n) \<and>
               (case operator (length (prompted w1) + k) of
                  Inl e \<Rightarrow> False
                | Inr v \<Rightarrow> if v = [] then \<not> required p \<and> map_of arguments n = None
                          else map_of arguments n = Some v)))"
proof (intro conjI allI impI)
  note inv = collect_arguments_Inr[OF assms]
  from inv show "[] \<notin> snd ` set arguments"
    by auto
  from inv show "fst ` set arguments \<subseteq> fst ` set params"
    by simp
  from inv show "\<forall>(n, p) \<in> set params. required p \<longrightarrow> n \<in> fst ` set arguments"
    by blast
next
  fix before n p after
  assume h: "params = before @ (n, p) # after \<and> distinct (map fst params)"
  then have ps: "params = before @ (n, p) # after" and d: "distinct (map fst params)"
    by blast+
  from d have "distinct (map fst (before @ (n, p) # after))"
    unfolding ps .
  then have nb: "n \<notin> fst ` set before" and na: "n \<notin> fst ` set after"
    by simp_all
  from assms have whole:
    "(case collect_arguments operator before [] w of
        None \<Rightarrow> None
      | Some (Inl e, w1) \<Rightarrow> Some (Inl e, w1)
      | Some (Inr a1, w1) \<Rightarrow> collect_arguments operator ((n, p) # after) a1 w1) =
     Some (Inr arguments, w')"
    unfolding ps collect_arguments_append .
  then obtain a1 w1 where
    first: "collect_arguments operator before [] w = Some (Inr a1, w1)"
    and tail: "collect_arguments operator ((n, p) # after) a1 w1 = Some (Inr arguments, w')"
    by (auto split: option.splits sum.splits)
  from tail obtain a2 w2 where
    one: "ask_parameter operator n p a1 w1 = Some (Inr a2, w2)"
    and rest: "collect_arguments operator after a2 w2 = Some (Inr arguments, w')"
    by (auto split: option.splits sum.splits)
  let ?i = "length (prompted w1)"
  from ask_parameter_Some[OF one] obtain k where k:
    "\<forall>j<k. operator (?i + j) = Inr []"
    "0 < k \<longrightarrow> required p"
    "operator (?i + k) = Inr [] \<longrightarrow> \<not> required p"
    "w2 = w1\<lparr>prompted := prompted w1 @ replicate (Suc k) (parameter_prompt n)\<rparr>"
    "Inr a2 = (case operator (?i + k) of
                 Inl e \<Rightarrow> Inl e
               | Inr v \<Rightarrow> if v \<noteq> [] then Inr (AList.update n v a1) else Inr a1)"
    unfolding ask_post_def by auto
  from collect_arguments_world[OF rest] obtain qs where
    "w' = w2\<lparr>prompted := prompted w2 @ qs\<rparr>"
    by blast
  with k(4) have "prompted w' = prompted w1 @ replicate (Suc k) (parameter_prompt n) @ qs"
    by simp
  then have prompts: "take (Suc k) (drop ?i (prompted w')) = replicate (Suc k) (parameter_prompt n)"
    by simp
  have "fst ` set a1 \<subseteq> fst ` set before"
    using collect_arguments_Inr[OF first] by simp
  with nb have "n \<notin> fst ` set a1"
    by blast
  then have none: "map_of a1 n = None"
    by (simp add: map_of_eq_None_iff)
  have kept: "map_of arguments n = map_of a2 n"
    using rest na by (rule collect_arguments_map_of)
  have last: "case operator (?i + k) of
                  Inl e \<Rightarrow> False
                | Inr v \<Rightarrow> if v = [] then \<not> required p \<and> map_of arguments n = None
                          else map_of arguments n = Some v"
  proof (cases "operator (?i + k)")
    case (Inl e)
    with k(5) show ?thesis by simp
  next
    case (Inr v)
    show ?thesis
    proof (cases "v = []")
      case True
      with Inr k(3,5) kept none show ?thesis by simp
    next
      case False
      with Inr k(5) have "a2 = AList.update n v a1" by simp
      with Inr False kept show ?thesis by (simp add: AList.update_conv)
    qed
  qed
  show "\<exists>a1 (w1 :: ('book, 'res, 'app) world) k.
               collect_arguments operator before [] w = Some (Inr a1, w1) \<and>
               (\<forall>j<k. operator (length (prompted w1) + j) = Inr []) \<and>
               (0 < k \<longrightarrow> required p) \<and>
               take (Suc k) (drop (length (prompted w1)) (prompted w')) =
                 replicate (Suc k) (parameter_prompt n) \<and>
               (case operator (length (prompted w1) + k) of
                  Inl e \<Rightarrow> False
                | Inr v \<Rightarrow> if v = [] then \<not> required p \<and> map_of arguments n = None
                          else map_of arguments n = Some v)"
    using first k(1,2) prompts last by blast
qed


lemma example_collect_target:
  "collect_arguments example_operator
     [(''target'', \<lparr>ptype = ''string'', pdescription = ''Host to ping'',
                    required = True, default = None\<rparr>)] []
     (print_blank (example_world\<lparr>loaded := [(''pages'', None)]\<rparr>)) =
   Some (Inr [(''target'', ''10.0.0.1'')],
         print_blank (example_world\<lparr>loaded := [(''pages'', None)]\<rparr>)
           \<lparr>prompted := [parameter_prompt ''target'', parameter_prompt ''target'']\<rparr>)"
  by (simp add: ask_parameter.simps Prompt_ask_def example_operator_def
      print_blank_def console_log_def example_world_def)

theorem collected_arguments_have_no_empty_value_witness:
  "(case collect_arguments example_operator (parameters ping) []
           (print_blank (example_world\<lparr>loaded := [(''pages'', None)]\<rparr>)) of
      Some (Inr arguments, w') \<Rightarrow>
        [] \<notin> snd ` set arguments \<and> map_of arguments ''target'' = Some ''10.0.0.1'' \<and>
        map_of arguments ''count'' = None
    | _ \<Rightarrow> False)"
proof -
  let ?w = "print_blank (example_world\<lparr>loaded := [(''pages'', None)]\<rparr>)"
  let ?w1 = "?w\<lparr>prompted := [parameter_prompt ''target'', parameter_prompt ''target'']\<rparr>"
  let ?pt = "\<lparr>ptype = ''string'', pdescription = ''Host to ping'',
               required = True, default = None\<rparr>"
  let ?pc = "\<lparr>ptype = ''integer'', pdescription = ''Number of probes'',
               required = False, default = Some ''1''\<rparr>"
  let ?args = "[(''target'', ''10.0.0.1'')]"
  note t = collected_arguments_have_no_empty_value[OF example_collect]
  have v: "[] \<notin> snd ` set ?args"
    by (rule t[THEN conjunct1])
  note each = t[THEN conjunct2, THEN conjunct2, THEN conjunct2, THEN spec, THEN spec,
      THEN spec, THEN spec, THEN mp]
  have start: "prompted ?w = []"
    by (simp add: print_blank_def console_log_def example_world_def)
  have "parameters ping = [] @ (''target'', ?pt) # [(''count'', ?pc)] \<and>
        distinct (map fst (parameters ping))"
    by (simp add: ping_def)
  from each[OF this] obtain k where
    k: "\<forall>j<k. example_operator (length (prompted ?w) + j) = Inr []"
       "case example_operator (length (prompted ?w) + k) of
          Inl e \<Rightarrow> False
        | Inr v \<Rightarrow> if v = [] then \<not> required ?pt \<and> map_of ?args ''target'' = None
                  else map_of ?args ''target'' = Some v"
    by auto
  have "k = 1"
  proof (rule ccontr)
    assume "k \<noteq> 1"
    then consider "k = 0" | "1 < k" by linarith
    then show False
    proof cases
      case 1
      with k(2) show False by (simp add: start example_operator_def)
    next
      case 2
      with k(1) have "example_operator (length (prompted ?w) + 1) = Inr []"
        by blast
      then show False by (simp add: start example_operator_def)
    qed
  qed
  with k(2) have r: "map_of ?args ''target'' = Some ''10.0.0.1''"
    by (simp add: start example_operator_def)
  have "parameters ping = [(''target'', ?pt)] @ (''count'', ?pc) # [] \<and>
        distinct (map fst (parameters ping))"
    by (simp add: ping_def)
  from each[OF this] obtain a1 w1 k' where
    k': "collect_arguments example_operator [(''target'', ?pt)] [] ?w = Some (Inr a1, w1)"
        "0 < k' \<longrightarrow> required ?pc"
        "case example_operator (length (prompted w1) + k') of
          Inl e \<Rightarrow> False
        | Inr v \<Rightarrow> if v = [] then \<not> required ?pc \<and> map_of ?args ''count'' = None
                  else map_of ?args ''count'' = Some v"
    by auto
  from k'(1) have "w1 = ?w1"
    unfolding example_collect_target by simp
  then have "length (prompted w1) = 2"
    by simp
  moreover from k'(2) have "k' = 0"
    by simp
  ultimately have o: "map_of ?args ''count'' = None"
    using k'(3) by (simp add: example_operator_def)
  show ?thesis
    unfolding example_collect using v r o by simp
qed


lemma ask_parameter_never_returns:
  assumes "\<forall>i. operator i = Inr []" and "required p"
  shows "ask_parameter operator n p a w = None"
proof (cases "ask_parameter operator n p a w")
  case None
  then show ?thesis .
next
  case (Some y)
  from ask_parameter_Some[OF Some] obtain k where
    "operator (length (prompted w) + k) = Inr [] \<longrightarrow> \<not> required p"
    unfolding ask_post_def by blast
  with assms show ?thesis by simp
qed

text \<open>
  Claim C10, as stated, fails twice. The handler is \<^verbatim>\<open>except Exception\<close>: the
  \<^verbatim>\<open>KeyboardInterrupt\<close> that the interrupt key raises at a prompt is not an instance of
  \<^verbatim>\<open>Exception\<close> and leaves the command. And an operator who answers the prompt of a
  required parameter with the empty string for ever keeps the command in its loop.
\<close>

theorem run_propagates_KeyboardInterrupt_counterexample:
  "run example_env (\<lambda>i. Inl KeyboardInterrupt) ''pages'' False ''ping'' example_world =
     Some (Propagated KeyboardInterrupt
             (print_blank (example_world\<lparr>loaded := [(''pages'', None)]\<rparr>)
                \<lparr>prompted := [parameter_prompt ''target'']\<rparr>)) \<and>
   run example_env (\<lambda>i. Inr []) ''pages'' False ''ping'' example_world = None"
proof
  show "run example_env (\<lambda>i. Inl KeyboardInterrupt) ''pages'' False ''ping'' example_world =
     Some (Propagated KeyboardInterrupt
             (print_blank (example_world\<lparr>loaded := [(''pages'', None)]\<rparr>)
                \<lparr>prompted := [parameter_prompt ''target'']\<rparr>))"
    by (simp add: run_def run_body_def Robook_from_path_def example_env_def find_fn_def
        example_book_def ping_def ask_parameter_raises print_blank_def console_log_def
        example_world_def)
next
  have "ask_parameter (\<lambda>i. Inr []) ''target''
          \<lparr>ptype = ''string'', pdescription = ''Host to ping'', required = True, default = None\<rparr>
          [] w = None" for w :: "(robook, result list, string) world"
    by (rule ask_parameter_never_returns) simp_all
  then show "run example_env (\<lambda>i. Inr []) ''pages'' False ''ping'' example_world = None"
    by (simp add: run_def run_body_def Robook_from_path_def example_env_def find_fn_def
        example_book_def ping_def)
qed

text \<open>
  Claim C10, amended. When the operator does not answer with the empty string for ever,
  and neither the collaborators nor the prompt raise \<^verbatim>\<open>KeyboardInterrupt\<close> (the exception
  outside \<^verbatim>\<open>Exception\<close> of this model), the body of \<^verbatim>\<open>run\<close> ends. If it ends normally the
  command returns. If it raised (while loading the Book, resolving the function,
  collecting the arguments or dispatching), the error is an \<open>Exception msg\<close>, it is caught,
  \<^verbatim>\<open>:cross_mark: msg\<close> is the last text handed to \<^verbatim>\<open>print\<close>, and the command returns
  normally when that call of \<^verbatim>\<open>print\<close> does not raise.
\<close>

theorem run_catches_every_Exception:
  assumes "\<forall>i. \<exists>j. operator (i + j) \<noteq> Inr []"
    and "from_path env path None \<noteq> Inl KeyboardInterrupt"
    and "\<forall>b. find_function env b function_name \<noteq> Inl KeyboardInterrupt"
    and "\<forall>b cs. process env b cs (\<not> auto) \<noteq> Inl KeyboardInterrupt"
    and "\<forall>i. operator i \<noteq> Inl KeyboardInterrupt"
  shows "\<exists>r w1. run_body env operator path auto function_name w = Some (r, w1) \<and>
           (case r of
              Inr u \<Rightarrow> run env operator path auto function_name w = Some (Returned w1)
            | Inl e \<Rightarrow>
                (\<exists>msg. e = Exception msg \<and>
                   map_option (\<lambda>r. console (world_of r))
                     (run env operator path auto function_name w) =
                     Some (console w1 @ [Text ('':cross_mark: '' @ msg)]) \<and>
                   (print_error env ('':cross_mark: '' @ msg) = None \<longrightarrow>
                      run env operator path auto function_name w =
                        Some (Returned (console_log (Text ('':cross_mark: '' @ msg)) w1)))))"
proof -
  from run_body_terminates[OF assms(1)] obtain y where
    "run_body env operator path auto function_name w = Some y"
    by blast
  then obtain r w1 where
    body: "run_body env operator path auto function_name w = Some (r, w1)"
    by (cases y) simp
  have "case r of
              Inr u \<Rightarrow> run env operator path auto function_name w = Some (Returned w1)
            | Inl e \<Rightarrow>
                (\<exists>msg. e = Exception msg \<and>
                   map_option (\<lambda>r. console (world_of r))
                     (run env operator path auto function_name w) =
                     Some (console w1 @ [Text ('':cross_mark: '' @ msg)]) \<and>
                   (print_error env ('':cross_mark: '' @ msg) = None \<longrightarrow>
                      run env operator path auto function_name w =
                        Some (Returned (console_log (Text ('':cross_mark: '' @ msg)) w1))))"
  proof (cases r)
    case (Inr u)
    with body show ?thesis by (simp add: run_def)
  next
    case (Inl e)
    with body have "run_body env operator path auto function_name w = Some (Inl e, w1)"
      by simp
    from run_body_raises[OF this] assms(2-5) have "e \<noteq> KeyboardInterrupt"
      by auto
    then obtain msg where "e = Exception msg"
      by (cases e) auto
    with Inl body show ?thesis
      by (simp add: run_def print_text_def console_log_def split: option.splits)
  qed
  with body show ?thesis by blast
qed

lemma example_operator_answers: "\<forall>i. \<exists>j. example_operator (i + j) \<noteq> Inr []"
proof
  fix i
  have "example_operator (i + 3) \<noteq> Inr []"
    by (simp add: example_operator_def)
  then show "\<exists>j. example_operator (i + j) \<noteq> Inr []" ..
qed

theorem run_catches_every_Exception_witness:
  "run example_env example_operator ''missing'' False ''ping'' example_world =
     Some (Returned (console_log (Text '':cross_mark: no such file or directory: missing'')
                       (example_world\<lparr>loaded := [(''missing'', None)]\<rparr>)))"
proof -
  have l: "from_path example_env ''missing'' None \<noteq> Inl KeyboardInterrupt"
    by (simp add: example_env_def)
  have f: "\<forall>b. find_function example_env b ''ping'' \<noteq> Inl KeyboardInterrupt"
    by (simp add: example_env_def)
  have p: "\<forall>b cs. process example_env b cs (\<not> False) \<noteq> Inl KeyboardInterrupt"
    by (simp add: example_env_def)
  have o: "\<forall>i. example_operator i \<noteq> Inl KeyboardInterrupt"
    by (simp add: example_operator_def)
  have body: "run_body example_env example_operator ''missing'' False ''ping'' example_world =
      Some (Inl (Exception ''no such file or directory: missing''),
            example_world\<lparr>loaded := [(''missing'', None)]\<rparr>)"
    by (simp add: run_body_def Robook_from_path_def example_env_def example_world_def)
  have e: "print_error example_env ('':cross_mark: '' @ ''no such file or directory: missing'') = None"
    by (simp add: example_env_def)
  from run_catches_every_Exception[OF example_operator_answers l f p o, of example_world]
  show ?thesis
    unfolding body using e by simp
qed

text \<open>
  The handler's own \<^verbatim>\<open>print\<close> is outside the \<^verbatim>\<open>try\<close> block: with the stand-in \<^verbatim>\<open>print\<close>,
  the message for the unknown function \<^verbatim>\<open>[/]\<close> holds a closing tag that closes nothing,
  and the exception raised for it leaves the command.
\<close>

lemma run_handler_print_raises_example:
  "run example_env example_operator ''pages'' False ''[/]'' example_world =
     Some (Propagated (Exception ''closing tag does not match any open tag'')
             (console_log (Text '':cross_mark: function [/] not found'')
                (example_world\<lparr>loaded := [(''pages'', None)]\<rparr>)))"
  by (simp add: run_def run_body_def Robook_from_path_def example_env_def find_fn_def
      example_book_def print_text_def example_world_def)

subsection \<open>\<^verbatim>\<open>serve\<close>\<close>

text \<open>
  Claim C4, as stated, fails: \<^verbatim>\<open>serve\<close> does not pass the Book to anything. It assigns
  it to the attribute \<^verbatim>\<open>book\<close> of the module \<^verbatim>\<open>robopages.api\<close>, a module-level global
  that was \<^verbatim>\<open>None\<close> before in this run, and starts the server with the module's \<^verbatim>\<open>app\<close>,
  the address and the port; the application finds the Book in the module.
\<close>

theorem serve_assigns_api_book_counterexample:
  "book (api example_world) = None \<and>
   book (api (world_of (serve example_env ''pages'' None ''127.0.0.1'' 8000 example_world))) =
     Some example_book \<and>
   served (world_of (serve example_env ''pages'' None ''127.0.0.1'' 8000 example_world)) =
     [(''api.app'', ''127.0.0.1'', 8000, \<lparr>book = Some example_book, app = ''api.app''\<rparr>)]"
  by (simp add: serve_def Robook_from_path_def example_env_def example_world_def uvicorn_run_def)

text \<open>
  Claim C4, amended. When the Book loads, \<^verbatim>\<open>serve\<close> builds it once, from the given path
  and filter, and stores it in the module-level attribute \<^verbatim>\<open>book\<close> of \<^verbatim>\<open>robopages.api\<close>.
  Then, for a local address, or when the warning printed for another address does not
  raise, it calls \<^verbatim>\<open>uvicorn.run\<close> once, with that module's \<^verbatim>\<open>app\<close>, the address and the
  port, at a moment when the module already holds the Book.
\<close>

theorem serve_stores_book_in_api_module:
  assumes "from_path env path filter_str = Inr b"
  shows "loaded (world_of (serve env path filter_str address port w)) =
           loaded w @ [(path, filter_str)] \<and>
         book (api (world_of (serve env path filter_str address port w))) = Some b \<and>
         app (api (world_of (serve env path filter_str address port w))) = app (api w) \<and>
         (address \<in> set [''127.0.0.1'', ''localhost''] \<or>
          print_error env external_address_warning = None \<longrightarrow>
            served (world_of (serve env path filter_str address port w)) =
              served w @ [(app (api w), address, port, (api w)\<lparr>book := Some b\<rparr>)])"
proof -
  let ?w1 = "w\<lparr>loaded := loaded w @ [(path, filter_str)],
               api := (api w)\<lparr>book := Some b\<rparr>\<rparr>"
  let ?start = "(app (api w), address, port, (api w)\<lparr>book := Some b\<rparr>)"
  have started: "world_of (uvicorn_run env a address port v) =
      v\<lparr>served := served v @ [(a, address, port, api v)]\<rparr>"
    for a and v :: "('a, 'b, 'd) world"
    by (simp add: uvicorn_run_def Let_def split: option.splits)
  show ?thesis
  proof (cases "address \<in> set [''127.0.0.1'', ''localhost'']")
    case True
    then have "world_of (serve env path filter_str address port w) =
        ?w1\<lparr>served := served w @ [?start]\<rparr>"
      using assms by (simp add: serve_def Robook_from_path_def started)
    then show ?thesis by simp
  next
    case False
    show ?thesis
    proof (cases "print_error env external_address_warning")
      case None
      with False have "world_of (serve env path filter_str address port w) =
          (console_log (Text external_address_warning) ?w1)
            \<lparr>served := served w @ [?start]\<rparr>"
        using assms
        by (simp add: serve_def Robook_from_path_def print_text_def started console_log_def)
      with None show ?thesis by (simp add: console_log_def)
    next
      case (Some e)
      with False have "world_of (serve env path filter_str address port w) =
          console_log (Text external_address_warning) ?w1"
        using assms by (simp add: serve_def Robook_from_path_def print_text_def)
      with False Some show ?thesis by (simp add: console_log_def)
    qed
  qed
qed

theorem serve_stores_book_in_api_module_witness:
  "loaded (world_of (serve example_env ''pages'' (Some ''net'') ''0.0.0.0'' 8000 example_world)) =
     [(''pages'', Some ''net'')] \<and>
   book (api (world_of (serve example_env ''pages'' (Some ''net'') ''0.0.0.0'' 8000 example_world))) =
     Some example_book \<and>
   served (world_of (serve example_env ''pages'' (Some ''net'') ''0.0.0.0'' 8000 example_world)) =
     [(''api.app'', ''0.0.0.0'', 8000, \<lparr>book = Some example_book, app = ''api.app''\<rparr>)]"
proof -
  have l: "from_path example_env ''pages'' (Some ''net'') = Inr example_book"
    by (simp add: example_env_def)
  have w: "loaded example_world = []" "served example_world = []"
    "app (api example_world) = ''api.app''"
    "api example_world = \<lparr>book = None, app = ''api.app''\<rparr>"
    by (simp_all add: example_world_def)
  have "\<not> unmatched_closing_tag 0 external_address_warning"
    by code_simp
  then have e: "print_error example_env external_address_warning = None"
    by (simp add: example_env_def)
  note t = serve_stores_book_in_api_module[OF l, of "''0.0.0.0''" 8000 example_world]
  have s: "served (world_of (serve example_env ''pages'' (Some ''net'') ''0.0.0.0'' 8000
               example_world)) =
     [(''api.app'', ''0.0.0.0'', 8000, \<lparr>book = Some example_book, app = ''api.app''\<rparr>)]"
    using t[THEN conjunct2, THEN conjunct2, THEN conjunct2] e by (simp add: w)
  show ?thesis
    using t[THEN conjunct1] t[THEN conjunct2, THEN conjunct1] s by (simp add: w)
qed

end
